theory Spec2Isabelle
  imports Main "HOL-Library.AList"
begin

section \<open>email-catch: SMTP session, MIME parser and routing dispatcher\<close>

text \<open>
  A shallow embedding of the Go sources \<^verbatim>\<open>internal/smtp/server.go\<close>,
  \<^verbatim>\<open>pkg/email\<close> (parser and processor) and \<^verbatim>\<open>internal/webhook\<close>.
  Go strings and byte slices are \<^typ>\<open>string\<close> (lists of 8-bit characters), Go
  \<^verbatim>\<open>error\<close> values are their message text, and a Go \<^verbatim>\<open>map[string]T\<close> is an
  association list with distinct keys.
\<close>

subsection \<open>Functions of the Go standard library on strings\<close>

text \<open>
  The functions of package \<^verbatim>\<open>strings\<close> that the sources call. A Go string is a
  sequence of bytes, read as UTF-8 where a function works on code points.
\<close>

type_synonym error = string

definition CR :: char where
  "CR = CHR 0x0D"

definition LF :: char where
  "LF = CHR 0x0A"

definition CRLF :: string where
  "CRLF = [CHR 0x0D, CHR 0x0A]"

definition upper_byte :: "char \<Rightarrow> char" where
  "upper_byte c =
     (case map_of (zip ''abcdefghijklmnopqrstuvwxyz'' ''ABCDEFGHIJKLMNOPQRSTUVWXYZ'') c of
        Some u \<Rightarrow> u | None \<Rightarrow> c)"

definition lower_byte :: "char \<Rightarrow> char" where
  "lower_byte c =
     (case map_of (zip ''ABCDEFGHIJKLMNOPQRSTUVWXYZ'' ''abcdefghijklmnopqrstuvwxyz'') c of
        Some l \<Rightarrow> l | None \<Rightarrow> c)"

text \<open>A byte below \<^verbatim>\<open>utf8.RuneSelf\<close> (0x80) is a code point of its own.\<close>

definition isASCII :: "char \<Rightarrow> bool" where
  "isASCII c = (\<not> digit7 c)"

definition strings_HasPrefix :: "string \<Rightarrow> string \<Rightarrow> bool" where
  "strings_HasPrefix s p = (take (length p) s = p)"

definition strings_HasSuffix :: "string \<Rightarrow> string \<Rightarrow> bool" where
  "strings_HasSuffix s p = (length p \<le> length s \<and> drop (length s - length p) s = p)"

text \<open>
  \<^verbatim>\<open>strings.TrimSpace\<close> removes the white space of Unicode from both ends: first
  \<^verbatim>\<open>TrimLeftFunc\<close>, then \<^verbatim>\<open>TrimRightFunc\<close>, with \<^verbatim>\<open>unicode.IsSpace\<close>. The white
  space code points are the six of ASCII and U+0085, U+00A0, U+1680, U+2000 to U+200A,
  U+2028, U+2029, U+202F, U+205F and U+3000; \<open>spaceRunes\<close> lists their UTF-8
  encodings. The code point decoded at the front of a string (\<^verbatim>\<open>DecodeRuneInString\<close>)
  is one of them exactly when the string begins with one of these encodings, and the
  code point decoded at its end (\<^verbatim>\<open>DecodeLastRuneInString\<close>) exactly when it ends with
  one: no encoding of a code point begins or ends the encoding of another, and bytes
  that are no valid UTF-8 decode to U+FFFD, which is no white space.
\<close>

definition spaceRunes :: "string list" where
  "spaceRunes =
     map (\<lambda>c. [c]) [CHR 0x09, CHR 0x0A, CHR 0x0B, CHR 0x0C, CHR 0x0D, CHR 0x20]
     @ [[CHR 0xC2, CHR 0x85], [CHR 0xC2, CHR 0xA0], [CHR 0xE1, CHR 0x9A, CHR 0x80]]
     @ map (\<lambda>c. [CHR 0xE2, CHR 0x80, c])
         [CHR 0x80, CHR 0x81, CHR 0x82, CHR 0x83, CHR 0x84, CHR 0x85, CHR 0x86, CHR 0x87,
          CHR 0x88, CHR 0x89, CHR 0x8A, CHR 0xA8, CHR 0xA9, CHR 0xAF]
     @ [[CHR 0xE2, CHR 0x81, CHR 0x9F], [CHR 0xE3, CHR 0x80, CHR 0x80]]"

text \<open>The width of the white space at the front and at the end of a string, 0 for none.\<close>

definition leadingSpace :: "string \<Rightarrow> nat" where
  "leadingSpace s =
     (case find (strings_HasPrefix s) spaceRunes of None \<Rightarrow> 0 | Some p \<Rightarrow> length p)"

definition trailingSpace :: "string \<Rightarrow> nat" where
  "trailingSpace s =
     (case find (strings_HasSuffix s) spaceRunes of None \<Rightarrow> 0 | Some p \<Rightarrow> length p)"

lemma leadingSpace_le: "leadingSpace s \<le> length s"
proof (cases "find (strings_HasPrefix s) spaceRunes")
  case None
  then show ?thesis by (simp add: leadingSpace_def)
next
  case (Some p)
  then have "strings_HasPrefix s p" by (auto simp: find_Some_iff)
  then have "length p \<le> length s"
    by (metis strings_HasPrefix_def length_take min.cobounded1)
  with Some show ?thesis by (simp add: leadingSpace_def)
qed

lemma trailingSpace_le: "trailingSpace s \<le> length s"
proof (cases "find (strings_HasSuffix s) spaceRunes")
  case None
  then show ?thesis by (simp add: trailingSpace_def)
next
  case (Some p)
  then have "strings_HasSuffix s p" by (auto simp: find_Some_iff)
  then have "length p \<le> length s" by (simp add: strings_HasSuffix_def)
  with Some show ?thesis by (simp add: trailingSpace_def)
qed

function TrimLeftSpace :: "string \<Rightarrow> string" where
  "TrimLeftSpace s =
     (if leadingSpace s = 0 then s else TrimLeftSpace (drop (leadingSpace s) s))"
  by pat_completeness auto
termination
proof (relation "measure length", goal_cases)
  case 1
  show ?case by simp
next
  case (2 s)
  with leadingSpace_le [of s] show ?case by (cases s) auto
qed

function TrimRightSpace :: "string \<Rightarrow> string" where
  "TrimRightSpace s =
     (if trailingSpace s = 0 then s else TrimRightSpace (take (length s - trailingSpace s) s))"
  by pat_completeness auto
termination
proof (relation "measure length", goal_cases)
  case 1
  show ?case by simp
next
  case (2 s)
  with trailingSpace_le [of s] show ?case by (cases s) auto
qed

declare TrimLeftSpace.simps [simp del] TrimRightSpace.simps [simp del]

definition strings_TrimSpace :: "string \<Rightarrow> string" where
  "strings_TrimSpace s = TrimRightSpace (TrimLeftSpace s)"

fun strings_Contains :: "string \<Rightarrow> string \<Rightarrow> bool" where
  "strings_Contains [] sub = (sub = [])"
| "strings_Contains (c # s) sub = (strings_HasPrefix (c # s) sub \<or> strings_Contains s sub)"

definition strings_TrimSuffix :: "string \<Rightarrow> string \<Rightarrow> string" where
  "strings_TrimSuffix s p = (if strings_HasSuffix s p then take (length s - length p) s else s)"

text \<open>\<^verbatim>\<open>strings.ReplaceAll(s, old, new)\<close> where \<^verbatim>\<open>old\<close> is one byte.\<close>

definition strings_ReplaceAll :: "string \<Rightarrow> char \<Rightarrow> string \<Rightarrow> string" where
  "strings_ReplaceAll s old new = concat (map (\<lambda>c. if c = old then new else [c]) s)"

text \<open>\<^verbatim>\<open>strings.Split(s, sep)\<close> and \<^verbatim>\<open>strings.SplitN(s, sep, 2)\<close> for a one-byte
  separator.\<close>

fun strings_Split :: "string \<Rightarrow> char \<Rightarrow> string list" where
  "strings_Split [] sep = [[]]"
| "strings_Split (c # s) sep =
     (if c = sep then [] # strings_Split s sep
      else (case strings_Split s sep of
              [] \<Rightarrow> [[c]]
            | w # ws \<Rightarrow> (c # w) # ws))"

definition strings_SplitN2 :: "string \<Rightarrow> char \<Rightarrow> string list" where
  "strings_SplitN2 s sep =
     (if sep \<in> set s
      then [takeWhile (\<lambda>c. c \<noteq> sep) s, tl (dropWhile (\<lambda>c. c \<noteq> sep) s)]
      else [s])"

text \<open>\<^verbatim>\<open>%d\<close> of a non-negative number and \<^verbatim>\<open>%x\<close> of a byte slice.\<close>

definition digit :: "nat \<Rightarrow> char" where
  "digit n = ''0123456789abcdef'' ! (n mod 16)"

fun decimal :: "nat \<Rightarrow> string" where
  "decimal n = (if n < 10 then [digit n] else decimal (n div 10) @ [digit (n mod 10)])"

definition show_int :: "int \<Rightarrow> string" where
  "show_int i = (if i < 0 then CHR ''-'' # decimal (nat (- i)) else decimal (nat i))"

definition hex :: "string \<Rightarrow> string" where
  "hex bs = concat (map (\<lambda>c. [digit (of_char c div 16), digit (of_char c mod 16)]) bs)"

subsection \<open>\<^verbatim>\<open>encoding/base64\<close>: \<^verbatim>\<open>StdEncoding.Decode\<close>\<close>

text \<open>
  The standard alphabet with mandatory \<^verbatim>\<open>=\<close> padding. Carriage returns and line feeds
  are ignored wherever they stand; any other byte outside the alphabet, a missing or
  misplaced padding byte, and anything after the padding make the input corrupt.
\<close>

definition b64val :: "char \<Rightarrow> nat option" where
  "b64val c =
     map_of (zip ''ABCDEFGHIJKLMNOPQRSTUVWXYZabcdefghijklmnopqrstuvwxyz0123456789+/''
                 [0..<64]) c"

fun b64quanta :: "string \<Rightarrow> string option" where
  "b64quanta [] = Some []"
| "b64quanta (c1 # c2 # c3 # c4 # rest) =
     (case (b64val c1, b64val c2) of
        (Some v1, Some v2) \<Rightarrow>
          (if c3 = CHR ''='' then
             (if c4 = CHR ''='' \<and> rest = [] then Some [char_of (v1 * 4 + v2 div 16)] else None)
           else
             (case b64val c3 of
                None \<Rightarrow> None
              | Some v3 \<Rightarrow>
                 (if c4 = CHR ''='' then
                    (if rest = []
                     then Some [char_of (v1 * 4 + v2 div 16),
                                char_of ((v2 mod 16) * 16 + v3 div 4)]
                     else None)
                  else
                    (case b64val c4 of
                       None \<Rightarrow> None
                     | Some v4 \<Rightarrow>
                        (case b64quanta rest of
                           None \<Rightarrow> None
                         | Some bs \<Rightarrow>
                            Some (char_of (v1 * 4 + v2 div 16) #
                                  char_of ((v2 mod 16) * 16 + v3 div 4) #
                                  char_of ((v3 mod 4) * 64 + v4) # bs))))))
      | _ \<Rightarrow> None)"
| "b64quanta _ = None"

definition base64_Decode :: "string \<Rightarrow> string option" where
  "base64_Decode src = b64quanta (filter (\<lambda>c. c \<noteq> CR \<and> c \<noteq> LF) src)"

subsection \<open>Data model\<close>

text \<open>An instant of \<^verbatim>\<open>time.Time\<close> is a number; how it prints is left to
  \<^verbatim>\<open>Format\<close> below.\<close>

type_synonym Time = int

record Attachment =
  Filename :: string
  ContentType :: string
  Content :: string
  Size :: int

record Email =
  From :: string
  To :: "string list"
  Subject :: string
  Date :: Time
  MessageID :: string
  Headers :: "(string \<times> string list) list"
  Body :: string
  HTMLBody :: string
  Attachments :: "Attachment list"
  Raw :: string

text \<open>Package \<^verbatim>\<open>webhook\<close>: the payload of a delivery and of the JSON sidecar.\<close>

record AttachmentInfo =
  Info_Filename :: string
  Info_ContentType :: string
  Info_Size :: int
  Info_S3Path :: string

record EmailPayload =
  Payload_From :: string
  Payload_To :: "string list"
  Payload_Subject :: string
  Payload_Date :: Time
  Payload_MessageID :: string
  Payload_Body :: string
  Payload_HTMLBody :: string
  Payload_Markdown :: string
  Payload_Headers :: "(string \<times> string list) list"
  Payload_Attachments :: "AttachmentInfo list"
  Payload_Timestamp :: Time
  Payload_EMLPath :: string

text \<open>Package \<^verbatim>\<open>config\<close>, the part the session and the processor read.\<close>

record Condition =
  RecipientPattern :: string
  SenderPattern :: string
  SubjectPattern :: string

record Action =
  Action_Type :: string
  Action_Config :: "(string \<times> string) list"
  Action_Enabled :: bool

record RouteConfig =
  Route_Name :: string
  Route_Condition :: Condition
  Route_Actions :: "Action list"
  Route_Enabled :: bool

record Config =
  Hostname :: string
  TLS_Enabled :: bool
  TLS_CertFile :: string
  TLS_KeyFile :: string
  S3_Enabled :: bool
  Local_Enabled :: bool
  Routes :: "RouteConfig list"

definition GetEnabledRoutes :: "Config \<Rightarrow> RouteConfig list" where
  "GetEnabledRoutes c = filter Route_Enabled (Routes c)"

text \<open>Reading a key of a \<^verbatim>\<open>map[string]string\<close>: the empty string when absent.\<close>

definition lookup :: "(string \<times> string) list \<Rightarrow> string \<Rightarrow> string" where
  "lookup m k = (case map_of m k of None \<Rightarrow> [] | Some v \<Rightarrow> v)"

subsection \<open>What the code calls outside the repository\<close>

text \<open>
  One part of a multipart body as \<^verbatim>\<open>multipart.Reader.NextPart\<close> hands it out: its
  header, and what \<^verbatim>\<open>io.ReadAll\<close> of the part returns.
\<close>

record Part =
  PartHeader :: "(string \<times> string list) list"
  PartData :: "error + string"

text \<open>
  The library functions whose results the code only passes on are parameters of the
  model, collected in one record:
  \<^item> \<open>ReadHeaderFields\<close>: the header block of a message as \<^verbatim>\<open>net/textproto\<close> reads
    it for \<^verbatim>\<open>mail.ReadMessage\<close>: the fields in arrival order with their names as on
    the wire, and the bytes after the block; or an error for a malformed block;
  \<^item> \<open>ParseMediaType\<close>: \<^verbatim>\<open>mime.ParseMediaType\<close>, with its three results;
  \<^item> \<open>DecodeHeader\<close>: \<^verbatim>\<open>mime.WordDecoder.DecodeHeader\<close>;
  \<^item> \<open>ParseDate\<close>, \<open>Format\<close>: \<^verbatim>\<open>mail.ParseDate\<close>, \<^verbatim>\<open>Time.Format\<close>;
  \<^item> \<open>MultipartRead\<close>: the parts \<^verbatim>\<open>NextPart\<close> returns for a body and a boundary, and
    how the sequence ends: end of input, or the error of the failing \<^verbatim>\<open>NextPart\<close>;
  \<^item> \<open>Compile\<close>, \<open>MatchString\<close>: package \<^verbatim>\<open>regexp\<close>, a compiled expression being
    named by its pattern;
  \<^item> \<open>ConvertToMarkdown\<close>: the repository's Markdown renderer, which no property below
    reads; \<open>Marshal\<close>, \<open>MarshalIndent\<close>: \<^verbatim>\<open>encoding/json\<close>;
  \<^item> \<open>NewRequest\<close>: \<^verbatim>\<open>http.NewRequest\<close>, of a method and a URL;
  \<^item> \<open>LoadX509KeyPair\<close>, \<open>Handshake\<close>: \<^verbatim>\<open>crypto/tls\<close>; a successful handshake reads
    some bytes of the connection, and their number is its result;
  \<^item> \<open>Listen\<close>: \<^verbatim>\<open>net.Listen\<close> and \<^verbatim>\<open>tls.Listen\<close> on a port, which may fail;
  \<^item> \<open>ToUpperUnicode\<close>, \<open>ToLowerUnicode\<close>: \<^verbatim>\<open>strings.Map\<close> of \<^verbatim>\<open>unicode.ToUpper\<close>
    and of \<^verbatim>\<open>unicode.ToLower\<close>, the case tables of Unicode.
\<close>

record golib =
  ReadHeaderFields :: "string \<Rightarrow> error + ((string \<times> string) list \<times> string)"
  ParseMediaType :: "string \<Rightarrow> string \<times> (string \<times> string) list \<times> error option"
  DecodeHeader :: "string \<Rightarrow> error + string"
  ParseDate :: "string \<Rightarrow> error + Time"
  Format :: "Time \<Rightarrow> string \<Rightarrow> string"
  MultipartRead :: "string \<Rightarrow> string \<Rightarrow> Part list \<times> error option"
  Compile :: "string \<Rightarrow> error option"
  MatchString :: "string \<Rightarrow> string \<Rightarrow> bool"
  ConvertToMarkdown :: "string \<Rightarrow> string \<Rightarrow> Email \<Rightarrow> string"
  Marshal :: "EmailPayload \<Rightarrow> error + string"
  MarshalIndent :: "EmailPayload \<Rightarrow> error + string"
  NewRequest :: "string \<Rightarrow> string \<Rightarrow> error option"
  LoadX509KeyPair :: "string \<Rightarrow> string \<Rightarrow> error option"
  Handshake :: "string \<Rightarrow> error + nat"
  Listen :: "int \<Rightarrow> error option"
  ToUpperUnicode :: "string \<Rightarrow> string"
  ToLowerUnicode :: "string \<Rightarrow> string"

text \<open>
  \<^verbatim>\<open>strings.ToUpper\<close> and \<^verbatim>\<open>strings.ToLower\<close>: a string of ASCII bytes is mapped
  byte by byte, any other string through the case tables of Unicode.
\<close>

definition strings_ToUpper :: "golib \<Rightarrow> string \<Rightarrow> string" where
  "strings_ToUpper L s = (if list_all isASCII s then map upper_byte s else ToUpperUnicode L s)"

definition strings_ToLower :: "golib \<Rightarrow> string \<Rightarrow> string" where
  "strings_ToLower L s = (if list_all isASCII s then map lower_byte s else ToLowerUnicode L s)"

subsection \<open>\<^verbatim>\<open>net/textproto\<close> and \<^verbatim>\<open>net/mail\<close>: header maps\<close>

text \<open>
  \<^verbatim>\<open>ReadMIMEHeader\<close> stores each field under \<^verbatim>\<open>CanonicalMIMEHeaderKey\<close> of its
  name, appending the value to the values already there. The canonical form of a name
  made of token bytes has its first letter and every letter after a hyphen in upper
  case and the others in lower case; any other name is returned as it is.
\<close>

definition validHeaderFieldByte :: "char \<Rightarrow> bool" where
  "validHeaderFieldByte c =
     (c \<in> set (''!#$%&*+-.^_|~0123456789abcdefghijklmnopqrstuvwxyzABCDEFGHIJKLMNOPQRSTUVWXYZ''
                @ [CHR 0x27, CHR 0x60]))"

fun canonical :: "bool \<Rightarrow> string \<Rightarrow> string" where
  "canonical upper [] = []"
| "canonical upper (c # cs) =
     (let c' = (if upper then upper_byte c else lower_byte c)
      in c' # canonical (c' = CHR ''-'') cs)"

definition CanonicalMIMEHeaderKey :: "string \<Rightarrow> string" where
  "CanonicalMIMEHeaderKey s = (if list_all validHeaderFieldByte s then canonical True s else s)"

definition values_of :: "(string \<times> string list) list \<Rightarrow> string \<Rightarrow> string list" where
  "values_of h key = (case map_of h key of None \<Rightarrow> [] | Some vs \<Rightarrow> vs)"

definition addField :: "(string \<times> string list) list \<Rightarrow> string \<times> string \<Rightarrow>
    (string \<times> string list) list" where
  "addField h f =
     (let key = CanonicalMIMEHeaderKey (fst f)
      in AList.update key (values_of h key @ [snd f]) h)"

definition buildHeader :: "(string \<times> string) list \<Rightarrow> (string \<times> string list) list" where
  "buildHeader fs = foldl addField [] fs"

record Message =
  Header :: "(string \<times> string list) list"
  MsgBody :: string

definition mail_ReadMessage :: "golib \<Rightarrow> string \<Rightarrow> error + Message" where
  "mail_ReadMessage L raw =
     (case ReadHeaderFields L raw of
        Inl err \<Rightarrow> Inl err
      | Inr (fs, body) \<Rightarrow> Inr \<lparr>Header = buildHeader fs, MsgBody = body\<rparr>)"

text \<open>\<^verbatim>\<open>Header.Get(key)\<close>: the first value stored under the canonical form of the key.\<close>

definition Header_Get :: "(string \<times> string list) list \<Rightarrow> string \<Rightarrow> string" where
  "Header_Get h key =
     (case values_of h (CanonicalMIMEHeaderKey key) of [] \<Rightarrow> [] | v # _ \<Rightarrow> v)"

subsection \<open>The MIME parser (\<^verbatim>\<open>pkg/email\<close>)\<close>

text \<open>\<^verbatim>\<open>decodeMIMEHeader\<close>: RFC 2047 decoding, with the raw text kept when it fails.\<close>

definition decodeMIMEHeader :: "golib \<Rightarrow> string \<Rightarrow> string" where
  "decodeMIMEHeader L header =
     (if header = [] then []
      else (case DecodeHeader L header of
              Inl err \<Rightarrow> header
            | Inr decoded \<Rightarrow> decoded))"

text \<open>
  \<^verbatim>\<open>decodeContent\<close>. The \<^verbatim>\<open>quoted-printable\<close> branch of the source reads the data
  back through \<^verbatim>\<open>strings.NewReader\<close> and \<^verbatim>\<open>io.ReadAll\<close>, which returns the same
  bytes and no error. The message of a base64 failure is given without its byte offset.
\<close>

definition decodeContent :: "golib \<Rightarrow> string \<Rightarrow> string \<Rightarrow> error + string" where
  "decodeContent L dat encoding =
     (let encoding = strings_ToLower L (strings_TrimSpace encoding) in
      if encoding = ''base64'' then
        (case base64_Decode dat of
           None \<Rightarrow> Inl (''failed to decode base64: '' @ ''illegal base64 data'')
         | Some decoded \<Rightarrow> Inr decoded)
      else if encoding = ''quoted-printable'' then Inr dat
      else if encoding \<in> set [''7bit'', ''8bit'', ''binary'', []] then Inr dat
      else Inr dat)"

definition getFileExtension :: "string \<Rightarrow> string" where
  "getFileExtension mediaType =
     (case map_of
        [(''application/pdf'', ''.pdf''),
         (''application/msword'', ''.doc''),
         (''application/vnd.openxmlformats-officedocument.wordprocessingml.document'', ''.docx''),
         (''application/vnd.ms-excel'', ''.xls''),
         (''application/vnd.openxmlformats-officedocument.spreadsheetml.sheet'', ''.xlsx''),
         (''application/zip'', ''.zip''),
         (''application/x-rar-compressed'', ''.rar''),
         (''image/jpeg'', ''.jpg''),
         (''image/png'', ''.png''),
         (''image/gif'', ''.gif''),
         (''text/plain'', ''.txt''),
         (''text/html'', ''.html'')] mediaType of
        Some ext \<Rightarrow> ext
      | None \<Rightarrow> ''.bin'')"

text \<open>
  The body of the loop of \<^verbatim>\<open>parseMultipart\<close> for one part: the part fails the parse,
  or it updates the email, or it is a nested multipart body that the loop descends
  into. The \<^verbatim>\<open>DEBUG\<close> log lines of the loop are not modelled.
\<close>

datatype part_step = PartFail error | Continue Email | Nested string string

definition handlePart :: "golib \<Rightarrow> Email \<Rightarrow> Part \<Rightarrow> part_step" where
  "handlePart L e part =
     (let contentType = Header_Get (PartHeader part) ''Content-Type'';
          contentDisposition = Header_Get (PartHeader part) ''Content-Disposition'';
          contentTransferEncoding = Header_Get (PartHeader part) ''Content-Transfer-Encoding''
      in case PartData part of
           Inl err \<Rightarrow> PartFail (''failed to read part data: '' @ err)
         | Inr partData \<Rightarrow>
            (case decodeContent L partData contentTransferEncoding of
               Inl err \<Rightarrow> PartFail (''failed to decode part content: '' @ err)
             | Inr decoded \<Rightarrow>
                (let disposition = fst (ParseMediaType L contentDisposition);
                     params = fst (snd (ParseMediaType L contentDisposition));
                     std = (disposition = ''attachment'' \<or>
                            (disposition = [] \<and> lookup params ''filename'' \<noteq> []));
                     filename = (if std then lookup params ''filename'' else []);
                     mediaType = fst (ParseMediaType L contentType);
                     mediaParams = fst (snd (ParseMediaType L contentType));
                     app = (strings_HasPrefix mediaType ''application/'' \<and>
                            \<not> strings_HasPrefix mediaType ''application/text'');
                     filename = (if app \<and> filename = [] then lookup mediaParams ''name''
                                 else filename);
                     img = strings_HasPrefix mediaType ''image/'';
                     filename = (if img \<and> filename = [] then lookup mediaParams ''name''
                                 else filename);
                     fwd = (strings_HasPrefix contentType ''message/rfc822'' \<or>
                            strings_Contains contentType ''forwarded-message'');
                     filename = (if fwd \<and> filename = [] then ''forwarded_email.eml''
                                 else filename);
                     isAttachment = (std \<or> app \<or> img \<or> fwd)
                 in if isAttachment then
                      (let filename =
                             (if filename = []
                              then ''attachment_'' @ decimal (length (Attachments e) + 1)
                                   @ getFileExtension mediaType
                              else filename)
                       in Continue (e\<lparr>Attachments := Attachments e @
                            [\<lparr>Filename = filename, ContentType = contentType,
                              Content = decoded, Size = int (length decoded)\<rparr>]\<rparr>))
                    else if strings_HasPrefix mediaType ''text/html'' then
                      Continue (e\<lparr>HTMLBody := decoded\<rparr>)
                    else if strings_HasPrefix mediaType ''text/plain'' then
                      Continue (e\<lparr>Body := decoded\<rparr>)
                    else if strings_HasPrefix mediaType ''multipart/'' then
                      (let nestedParams =
                             (case snd (snd (ParseMediaType L contentType)) of
                                None \<Rightarrow> mediaParams
                              | Some err \<Rightarrow> []);
                           boundary = lookup nestedParams ''boundary''
                       in if boundary \<noteq> [] then Nested decoded boundary else Continue e)
                    else Continue e)))"

text \<open>
  \<^verbatim>\<open>parseMultipart\<close>. The recursion into a nested body is bounded by a depth \<open>n\<close>,
  which \<^verbatim>\<open>ParseEmail\<close> sets to the length of the message body: the content of a part
  is shorter than the body that holds it, so the source never nests deeper. A reader
  that hands out parts as long as their body would exhaust the bound, which is
  reported as an error of its own.
\<close>

fun parseParts :: "nat \<Rightarrow> golib \<Rightarrow> Email \<Rightarrow> Part list \<Rightarrow> error option \<Rightarrow> error + Email" where
  "parseParts n L e [] fin =
     (case fin of
        None \<Rightarrow> Inr e
      | Some err \<Rightarrow> Inl (''failed to read multipart: '' @ err))"
| "parseParts n L e (part # parts) fin =
     (case handlePart L e part of
        PartFail err \<Rightarrow> Inl err
      | Continue e' \<Rightarrow> parseParts n L e' parts fin
      | Nested decoded boundary \<Rightarrow>
         (case n of
            0 \<Rightarrow> Inl ''multipart nesting deeper than the message is long''
          | Suc m \<Rightarrow>
             (case parseParts m L e (fst (MultipartRead L decoded boundary))
                     (snd (MultipartRead L decoded boundary)) of
                Inl err \<Rightarrow> Inl (''failed to parse nested multipart: '' @ err)
              | Inr e' \<Rightarrow> parseParts n L e' parts fin)))"

definition parseMultipart :: "nat \<Rightarrow> golib \<Rightarrow> Email \<Rightarrow> string \<Rightarrow> string \<Rightarrow> error + Email" where
  "parseMultipart n L e body boundary =
     parseParts n L e (fst (MultipartRead L body boundary)) (snd (MultipartRead L body boundary))"

text \<open>
  \<^verbatim>\<open>ParseEmail\<close>. Its first half, which fills the email from the envelope and the
  header, is \<open>headerEmail\<close>; its second half reads the body. The argument \<open>now\<close> is
  what \<^verbatim>\<open>time.Now()\<close> returns when this call reads the clock. \<^verbatim>\<open>io.ReadAll\<close> of the
  body, which is in memory, does not fail.
\<close>

definition headerEmail :: "golib \<Rightarrow> Time \<Rightarrow> Message \<Rightarrow> string \<Rightarrow> string \<Rightarrow> string list \<Rightarrow> Email" where
  "headerEmail L now msg rawData from to =
     (let email = \<lparr>From = from, To = to, Subject = [], Date = 0, MessageID = [],
                   Headers = [], Body = [], HTMLBody = [], Attachments = [],
                   Raw = rawData\<rparr>;
          email = email\<lparr>Headers :=
                    map (\<lambda>(key, vals). (key, map (decodeMIMEHeader L) vals)) (Header msg)\<rparr>;
          email = email\<lparr>Subject := decodeMIMEHeader L (Header_Get (Header msg) ''Subject'')\<rparr>;
          email = email\<lparr>MessageID :=
                    decodeMIMEHeader L (Header_Get (Header msg) ''Message-Id'')\<rparr>;
          email = (if Header_Get (Header msg) ''From'' \<noteq> []
                   then email\<lparr>From := decodeMIMEHeader L (Header_Get (Header msg) ''From'')\<rparr>
                   else email)
      in if Header_Get (Header msg) ''Date'' \<noteq> []
         then (case ParseDate L (Header_Get (Header msg) ''Date'') of
                 Inr parsedDate \<Rightarrow> email\<lparr>Date := parsedDate\<rparr>
               | Inl err \<Rightarrow> email\<lparr>Date := now\<rparr>)
         else email\<lparr>Date := now\<rparr>)"

definition ParseEmail :: "golib \<Rightarrow> Time \<Rightarrow> string \<Rightarrow> string \<Rightarrow> string list \<Rightarrow> error + Email" where
  "ParseEmail L now rawData from to =
     (case mail_ReadMessage L rawData of
        Inl err \<Rightarrow> Inl (''failed to parse email: '' @ err)
      | Inr msg \<Rightarrow>
         (let email = headerEmail L now msg rawData from to;
              contentType = (if Header_Get (Header msg) ''Content-Type'' = [] then ''text/plain''
                             else Header_Get (Header msg) ''Content-Type'');
              mediaType = fst (ParseMediaType L contentType);
              params = fst (snd (ParseMediaType L contentType))
          in case snd (snd (ParseMediaType L contentType)) of
               Some err \<Rightarrow> Inl (''failed to parse content type: '' @ err)
             | None \<Rightarrow>
                (if strings_HasPrefix mediaType ''multipart/'' then
                   (let boundary = lookup params ''boundary'' in
                    if boundary = [] then Inl ''missing boundary in multipart message''
                    else (case parseMultipart (length (MsgBody msg)) L email (MsgBody msg)
                                 boundary of
                            Inl err \<Rightarrow> Inl (''failed to parse multipart message: '' @ err)
                          | Inr email \<Rightarrow> Inr email))
                 else
                   (let encoding = Header_Get (Header msg) ''Content-Transfer-Encoding'' in
                    case decodeContent L (MsgBody msg) encoding of
                      Inl err \<Rightarrow> Inl (''failed to decode message body: '' @ err)
                    | Inr decoded \<Rightarrow>
                       (if strings_HasPrefix mediaType ''text/html''
                        then Inr (email\<lparr>HTMLBody := decoded\<rparr>)
                        else Inr (email\<lparr>Body := decoded\<rparr>))))))"

definition ToEML :: "Email \<Rightarrow> string" where
  "ToEML e = Raw e"

text \<open>\<^verbatim>\<open>Email.Summary\<close>, the recipients printed as \<^verbatim>\<open>%v\<close> prints a slice.\<close>

fun join :: "string list \<Rightarrow> string \<Rightarrow> string" where
  "join [] sep = []"
| "join [x] sep = x"
| "join (x # y # zs) sep = x @ sep @ join (y # zs) sep"

definition Summary :: "Email \<Rightarrow> string" where
  "Summary e =
     ''From: '' @ From e @ '', To: ['' @ join (To e) '' '' @ ''], Subject: ''
       @ Subject e @ '', Attachments: '' @ decimal (length (Attachments e)) @ '', Size: ''
       @ decimal (length (Raw e)) @ '' bytes''"

subsection \<open>Effects: the log and the sinks\<close>

text \<open>
  What the processor and the session do to the world is recorded as a list of events,
  oldest first: the lines written with \<^verbatim>\<open>log.Printf\<close>, the calls of the storage
  backend with their results, the HTTP requests of the webhook client with theirs, and
  the pauses of \<^verbatim>\<open>time.Sleep\<close> in seconds.
\<close>

datatype call =
    StoreLocal string string
  | StoreS3 string string
  | StoreS3WithContentType string string string

datatype logline =
    ProcessingEmail string
  | NoMatchingRoutes string "string list"
  | FailedToExecuteRoute string error
  | SuccessfullyExecutedRoute string
  | InvalidRecipientPattern string error
  | InvalidSenderPattern string error
  | InvalidSubjectPattern string error
  | UnknownActionType string
  | FailedToStoreAttachment string error
  | FailedToStoreWebhookPayload error
  | ErrorProcessingEmail error
  | ErrorReadingData error
  | TLSHandshakeFailed error
  | FailedToLoadTLSCertificates error

datatype event =
    Log logline
  | Storage call "error option"
  | Http string string "(string \<times> string) list" string "error + nat"
  | Sleep nat

type_synonym world = "event list"

text \<open>
  The storage backend (package \<^verbatim>\<open>internal/storage\<close>) and the HTTP client are
  collaborators of which the processor sees the outcome only: each is a function of
  the events so far and of the call, so that a sink may answer each call differently.
  An HTTP request is given by its method, URL, headers and body, and answers with a
  transport error or a status code. The clock is a collaborator of the same kind:
  \<open>clock\<close> is what \<^verbatim>\<open>time.Now()\<close> returns after the events so far.
\<close>

record Processor =
  config :: Config
  lib :: golib
  storageBackend :: "world \<Rightarrow> call \<Rightarrow> error option"
  httpClient :: "world \<Rightarrow> string \<Rightarrow> string \<Rightarrow> (string \<times> string) list \<Rightarrow> string \<Rightarrow> error + nat"
  clock :: "world \<Rightarrow> Time"

definition store :: "Processor \<Rightarrow> world \<Rightarrow> call \<Rightarrow> error option \<times> world" where
  "store P w c = (storageBackend P w c, w @ [Storage c (storageBackend P w c)])"

subsection \<open>The webhook client (\<^verbatim>\<open>internal/webhook\<close>)\<close>

text \<open>\<^verbatim>\<open>req.Header.Set\<close> stores a value under the canonical form of its key.\<close>

definition Header_Set :: "(string \<times> string) list \<Rightarrow> string \<times> string \<Rightarrow> (string \<times> string) list" where
  "Header_Set h kv = AList.update (CanonicalMIMEHeaderKey (fst kv)) (snd kv) h"

definition SendWebhook :: "Processor \<Rightarrow> world \<Rightarrow> string \<Rightarrow> string \<Rightarrow> (string \<times> string) list \<Rightarrow>
    EmailPayload \<Rightarrow> error option \<times> world" where
  "SendWebhook P w url method headers payload =
     (let payload = payload\<lparr>Payload_Timestamp := clock P w\<rparr> in
      case Marshal (lib P) payload of
        Inl err \<Rightarrow> (Some (''failed to marshal payload: '' @ err), w)
      | Inr jsonData \<Rightarrow>
         (case NewRequest (lib P) method url of
            Some err \<Rightarrow> (Some (''failed to create request: '' @ err), w)
          | None \<Rightarrow>
             (let hdr = foldl Header_Set
                          (foldl Header_Set []
                             [(''Content-Type'', ''application/json''),
                              (''User-Agent'', ''email-catch/2.0-markdown-compression'')])
                          headers;
                  resp = httpClient P w method url hdr jsonData;
                  w = w @ [Http method url hdr jsonData resp]
              in case resp of
                   Inl err \<Rightarrow> (Some (''failed to send webhook: '' @ err), w)
                 | Inr status \<Rightarrow>
                    (if status \<ge> 400
                     then (Some (''webhook returned error status: '' @ decimal status), w)
                     else (None, w)))))"

text \<open>
  \<^verbatim>\<open>SendWebhookWithRetry\<close>: the loop from \<open>attempt\<close> to \<open>maxRetries\<close>, with the last
  error so far.
\<close>

function retryLoop :: "Processor \<Rightarrow> string \<Rightarrow> string \<Rightarrow> (string \<times> string) list \<Rightarrow> EmailPayload \<Rightarrow>
    int \<Rightarrow> int \<Rightarrow> error option \<Rightarrow> world \<Rightarrow> error option \<times> world" where
  "retryLoop P url method headers payload maxRetries attempt lastErr w =
     (if attempt \<le> maxRetries then
        (case SendWebhook P (if attempt > 0 then w @ [Sleep (nat (attempt * attempt))] else w)
                url method headers payload of
           (None, w') \<Rightarrow> (None, w')
         | (Some err, w') \<Rightarrow>
             retryLoop P url method headers payload maxRetries (attempt + 1) (Some err) w')
      else
        (Some (''webhook failed after '' @ show_int (maxRetries + 1) @ '' attempts: ''
               @ (case lastErr of None \<Rightarrow> ''%!w(<nil>)'' | Some err \<Rightarrow> err)), w))"
  by pat_completeness auto
termination
  by (relation "measure (\<lambda>(P, url, method, headers, payload, maxRetries, attempt, lastErr, w).
        nat (maxRetries + 1 - attempt))") auto

definition SendWebhookWithRetry :: "Processor \<Rightarrow> world \<Rightarrow> string \<Rightarrow> string \<Rightarrow>
    (string \<times> string) list \<Rightarrow> EmailPayload \<Rightarrow> int \<Rightarrow> error option \<times> world" where
  "SendWebhookWithRetry P w url method headers payload maxRetries =
     retryLoop P url method headers payload maxRetries 0 None w"

subsection \<open>The routing engine (\<^verbatim>\<open>pkg/email\<close>, processor)\<close>

text \<open>\<^verbatim>\<open>routeMatches\<close>, its three conditions in the order of the source.\<close>

definition subjectMatches :: "Processor \<Rightarrow> world \<Rightarrow> Email \<Rightarrow> RouteConfig \<Rightarrow> bool \<times> world" where
  "subjectMatches P w email route =
     (if SubjectPattern (Route_Condition route) \<noteq> [] then
        (case Compile (lib P) (SubjectPattern (Route_Condition route)) of
           Some err \<Rightarrow> (False, w @ [Log (InvalidSubjectPattern (Route_Name route) err)])
         | None \<Rightarrow>
            (if \<not> MatchString (lib P) (SubjectPattern (Route_Condition route)) (Subject email)
             then (False, w) else (True, w)))
      else (True, w))"

definition senderMatches :: "Processor \<Rightarrow> world \<Rightarrow> Email \<Rightarrow> RouteConfig \<Rightarrow> bool \<times> world" where
  "senderMatches P w email route =
     (if SenderPattern (Route_Condition route) \<noteq> [] then
        (case Compile (lib P) (SenderPattern (Route_Condition route)) of
           Some err \<Rightarrow> (False, w @ [Log (InvalidSenderPattern (Route_Name route) err)])
         | None \<Rightarrow>
            (if \<not> MatchString (lib P) (SenderPattern (Route_Condition route)) (From email)
             then (False, w) else subjectMatches P w email route))
      else subjectMatches P w email route)"

definition routeMatches :: "Processor \<Rightarrow> world \<Rightarrow> Email \<Rightarrow> RouteConfig \<Rightarrow> bool \<times> world" where
  "routeMatches P w email route =
     (if RecipientPattern (Route_Condition route) \<noteq> [] then
        (case Compile (lib P) (RecipientPattern (Route_Condition route)) of
           Some err \<Rightarrow> (False, w @ [Log (InvalidRecipientPattern (Route_Name route) err)])
         | None \<Rightarrow>
            (if \<not> list_ex (MatchString (lib P) (RecipientPattern (Route_Condition route)))
                     (To email)
             then (False, w) else senderMatches P w email route))
      else senderMatches P w email route)"

fun findMatchingRoutes :: "Processor \<Rightarrow> world \<Rightarrow> Email \<Rightarrow> RouteConfig list \<Rightarrow>
    RouteConfig list \<times> world" where
  "findMatchingRoutes P w email [] = ([], w)"
| "findMatchingRoutes P w email (route # routes) =
     (case routeMatches P w email route of
        (True, w') \<Rightarrow>
          (case findMatchingRoutes P w' email routes of
             (matched, w'') \<Rightarrow> (route # matched, w''))
      | (False, w') \<Rightarrow> findMatchingRoutes P w' email routes)"

subsection \<open>The action dispatcher (\<^verbatim>\<open>pkg/email\<close>, processor)\<close>

definition generateUniqueID :: "Processor \<Rightarrow> Email \<Rightarrow> string" where
  "generateUniqueID P email =
     (let timestamp = Format (lib P) (Date email) ''20060102_150405.000000'' in
      if MessageID email \<noteq> []
      then timestamp @ ''_'' @ take 8 (hex (MessageID email))
      else timestamp)"

definition generateFilename :: "Processor \<Rightarrow> Email \<Rightarrow> string" where
  "generateFilename P email =
     (let timestamp = Format (lib P) (Date email) ''20060102_150405'';
          messageID = (if MessageID email = [] then ''no-id'' else MessageID email);
          messageID = strings_ReplaceAll messageID (CHR ''<'') [];
          messageID = strings_ReplaceAll messageID (CHR ''>'') [];
          messageID = strings_ReplaceAll messageID (CHR ''@'') ''_at_'';
          messageID = strings_ReplaceAll messageID (CHR ''/'') ''_'';
          messageID = strings_ReplaceAll messageID (CHR 0x5C) ''_'';
          messageID = take 50 messageID
      in timestamp @ ''_'' @ messageID @ ''.eml'')"

definition folderPath_of :: "Processor \<Rightarrow> Email \<Rightarrow> string \<Rightarrow> string" where
  "folderPath_of P email folder =
     folder @ ''/'' @ Format (lib P) (Date email) ''2006'' @ ''/''
       @ Format (lib P) (Date email) ''01'' @ ''/'' @ generateUniqueID P email"

text \<open>
  \<^verbatim>\<open>getRouteFolder\<close>: the folder of the first enabled action that names one, over the
  routes that match; matching them again writes the log lines of
  \<^verbatim>\<open>routeMatches\<close> again.
\<close>

definition getRouteFolder :: "Processor \<Rightarrow> world \<Rightarrow> Email \<Rightarrow> string \<times> world" where
  "getRouteFolder P w email =
     (case findMatchingRoutes P w email (GetEnabledRoutes (config P)) of
        (matchedRoutes, w') \<Rightarrow>
          (case filter (\<lambda>action. Action_Enabled action \<and>
                                 lookup (Action_Config action) ''folder'' \<noteq> [])
                       (concat (map Route_Actions matchedRoutes)) of
             [] \<Rightarrow> (''default'', w')
           | action # _ \<Rightarrow> (lookup (Action_Config action) ''folder'', w')))"

text \<open>The payload that \<^verbatim>\<open>executeWebhook\<close> and \<^verbatim>\<open>storeWebhookPayload\<close> both build.\<close>

definition makePayload :: "Processor \<Rightarrow> Email \<Rightarrow> string \<Rightarrow> EmailPayload" where
  "makePayload P email folderPath =
     \<lparr>Payload_From = From email, Payload_To = To email, Payload_Subject = Subject email,
      Payload_Date = Date email, Payload_MessageID = MessageID email,
      Payload_Body = Body email, Payload_HTMLBody = HTMLBody email,
      Payload_Markdown = ConvertToMarkdown (lib P) ''https://img.example.com'' folderPath email,
      Payload_Headers = Headers email,
      Payload_Attachments =
        map (\<lambda>att. \<lparr>Info_Filename = Filename att, Info_ContentType = ContentType att,
                     Info_Size = Size att,
                     Info_S3Path = folderPath @ ''/'' @ Filename att\<rparr>) (Attachments email),
      Payload_Timestamp = 0,
      Payload_EMLPath = folderPath @ ''/'' @ generateFilename P email\<rparr>"

definition storeWebhookPayload :: "Processor \<Rightarrow> world \<Rightarrow> Email \<Rightarrow> string \<Rightarrow> error option \<times> world" where
  "storeWebhookPayload P w email folderPath =
     (let baseFilename = strings_TrimSuffix (generateFilename P email) ''.eml'';
          payload = makePayload P email folderPath
      in case MarshalIndent (lib P) payload of
           Inl err \<Rightarrow> (Some (''failed to marshal webhook payload: '' @ err), w)
         | Inr jsonData \<Rightarrow>
            (let jsonPath = folderPath @ ''/'' @ baseFilename @ ''.json'' in
             case (if S3_Enabled (config P)
                   then store P w (StoreS3WithContentType jsonPath jsonData ''application/json'')
                   else (None, w)) of
               (Some err, w') \<Rightarrow> (Some (''failed to store JSON to S3: '' @ err), w')
             | (None, w') \<Rightarrow>
                (case (if Local_Enabled (config P)
                       then store P w' (StoreLocal jsonPath jsonData)
                       else (None, w')) of
                   (Some err, w'') \<Rightarrow> (Some (''failed to store JSON locally: '' @ err), w'')
                 | (None, w'') \<Rightarrow> (None, w''))))"

text \<open>The attachment loops: a failure is logged and the loop goes on.\<close>

fun storeAttachmentsLocal :: "Processor \<Rightarrow> world \<Rightarrow> string \<Rightarrow> Attachment list \<Rightarrow> world" where
  "storeAttachmentsLocal P w folderPath [] = w"
| "storeAttachmentsLocal P w folderPath (attachment # rest) =
     (case store P w (StoreLocal (folderPath @ ''/'' @ Filename attachment) (Content attachment)) of
        (Some err, w') \<Rightarrow>
          storeAttachmentsLocal P (w' @ [Log (FailedToStoreAttachment (Filename attachment) err)])
            folderPath rest
      | (None, w') \<Rightarrow> storeAttachmentsLocal P w' folderPath rest)"

fun storeAttachmentsS3 :: "Processor \<Rightarrow> world \<Rightarrow> string \<Rightarrow> Attachment list \<Rightarrow> world" where
  "storeAttachmentsS3 P w folderPath [] = w"
| "storeAttachmentsS3 P w folderPath (attachment # rest) =
     (case store P w (StoreS3WithContentType (folderPath @ ''/'' @ Filename attachment)
                        (Content attachment) (ContentType attachment)) of
        (Some err, w') \<Rightarrow>
          storeAttachmentsS3 P (w' @ [Log (FailedToStoreAttachment (Filename attachment) err)])
            folderPath rest
      | (None, w') \<Rightarrow> storeAttachmentsS3 P w' folderPath rest)"

definition logPayloadFailure :: "error option \<times> world \<Rightarrow> world" where
  "logPayloadFailure r =
     (case r of
        (Some err, w) \<Rightarrow> w @ [Log (FailedToStoreWebhookPayload err)]
      | (None, w) \<Rightarrow> w)"

definition executeLocalStorage :: "Processor \<Rightarrow> world \<Rightarrow> Email \<Rightarrow> Action \<Rightarrow> error option \<times> world" where
  "executeLocalStorage P w email action =
     (let folder = (if lookup (Action_Config action) ''folder'' = [] then ''default''
                    else lookup (Action_Config action) ''folder'');
          folderPath = folderPath_of P email folder;
          emlPath = folderPath @ ''/'' @ generateFilename P email
      in case store P w (StoreLocal emlPath (ToEML email)) of
           (Some err, w') \<Rightarrow> (Some (''failed to store EML file: '' @ err), w')
         | (None, w') \<Rightarrow>
            (None, logPayloadFailure
                     (storeWebhookPayload P
                        (storeAttachmentsLocal P w' folderPath (Attachments email))
                        email folderPath)))"

definition executeS3Storage :: "Processor \<Rightarrow> world \<Rightarrow> Email \<Rightarrow> Action \<Rightarrow> error option \<times> world" where
  "executeS3Storage P w email action =
     (let folder = (if lookup (Action_Config action) ''folder'' = [] then ''default''
                    else lookup (Action_Config action) ''folder'');
          folderPath = folderPath_of P email folder;
          emlPath = folderPath @ ''/'' @ generateFilename P email
      in case store P w (StoreS3 emlPath (ToEML email)) of
           (Some err, w') \<Rightarrow> (Some (''failed to store EML file: '' @ err), w')
         | (None, w') \<Rightarrow>
            (None, logPayloadFailure
                     (storeWebhookPayload P
                        (storeAttachmentsS3 P w' folderPath (Attachments email))
                        email folderPath)))"

text \<open>The \<^verbatim>\<open>headers\<close> option of a webhook action: pairs \<^verbatim>\<open>key:value\<close> between commas.\<close>

definition addPair :: "(string \<times> string) list \<Rightarrow> string \<Rightarrow> (string \<times> string) list" where
  "addPair headers pair =
     (case strings_SplitN2 pair (CHR '':'') of
        [k, v] \<Rightarrow> AList.update (strings_TrimSpace k) (strings_TrimSpace v) headers
      | _ \<Rightarrow> headers)"

definition parseHeaders :: "string \<Rightarrow> (string \<times> string) list" where
  "parseHeaders headerStr =
     (if headerStr \<noteq> [] then foldl addPair [] (strings_Split headerStr (CHR '','')) else [])"

text \<open>\<^verbatim>\<open>executeWebhook\<close>: one call of \<^verbatim>\<open>SendWebhook\<close>.\<close>

definition executeWebhook :: "Processor \<Rightarrow> world \<Rightarrow> Email \<Rightarrow> Action \<Rightarrow> error option \<times> world" where
  "executeWebhook P w email action =
     (let url = lookup (Action_Config action) ''url'' in
      if url = [] then (Some ''webhook URL not specified'', w)
      else
        (let method = (if lookup (Action_Config action) ''method'' = [] then ''POST''
                       else lookup (Action_Config action) ''method'');
             headers = parseHeaders (lookup (Action_Config action) ''headers'')
         in case getRouteFolder P w email of
              (folder, w') \<Rightarrow>
                SendWebhook P w' url method headers
                  (makePayload P email (folderPath_of P email folder))))"

text \<open>\<^verbatim>\<open>executeRoute\<close>: the loop over the actions of a route, which returns at the first
  action that fails.\<close>

fun executeActions :: "Processor \<Rightarrow> world \<Rightarrow> Email \<Rightarrow> Action list \<Rightarrow> error option \<times> world" where
  "executeActions P w email [] = (None, w)"
| "executeActions P w email (action # actions) =
     (if \<not> Action_Enabled action then executeActions P w email actions
      else if Action_Type action = ''store_local'' then
        (case executeLocalStorage P w email action of
           (Some err, w') \<Rightarrow> (Some (''local storage action failed: '' @ err), w')
         | (None, w') \<Rightarrow> executeActions P w' email actions)
      else if Action_Type action = ''store_s3'' then
        (case executeS3Storage P w email action of
           (Some err, w') \<Rightarrow> (Some (''S3 storage action failed: '' @ err), w')
         | (None, w') \<Rightarrow> executeActions P w' email actions)
      else if Action_Type action = ''webhook'' then
        (case executeWebhook P w email action of
           (Some err, w') \<Rightarrow> (Some (''webhook action failed: '' @ err), w')
         | (None, w') \<Rightarrow> executeActions P w' email actions)
      else executeActions P (w @ [Log (UnknownActionType (Action_Type action))]) email actions)"

definition executeRoute :: "Processor \<Rightarrow> world \<Rightarrow> Email \<Rightarrow> RouteConfig \<Rightarrow> error option \<times> world" where
  "executeRoute P w email route = executeActions P w email (Route_Actions route)"

text \<open>\<^verbatim>\<open>ProcessEmail\<close> and its loop over the matched routes.\<close>

fun executeRoutes :: "Processor \<Rightarrow> world \<Rightarrow> Email \<Rightarrow> RouteConfig list \<Rightarrow> world" where
  "executeRoutes P w email [] = w"
| "executeRoutes P w email (route # routes) =
     (case executeRoute P w email route of
        (Some err, w') \<Rightarrow>
          executeRoutes P (w' @ [Log (FailedToExecuteRoute (Route_Name route) err)]) email routes
      | (None, w') \<Rightarrow>
          executeRoutes P (w' @ [Log (SuccessfullyExecutedRoute (Route_Name route))]) email routes)"

definition ProcessEmail :: "Processor \<Rightarrow> world \<Rightarrow> string \<Rightarrow> string list \<Rightarrow> string \<Rightarrow>
    error option \<times> world" where
  "ProcessEmail P w from to rawData =
     (case ParseEmail (lib P) (clock P w) rawData from to of
        Inl err \<Rightarrow> (Some (''failed to parse email: '' @ err), w)
      | Inr email \<Rightarrow>
         (case findMatchingRoutes P (w @ [Log (ProcessingEmail (Summary email))]) email
                 (GetEnabledRoutes (config P)) of
            (matchedRoutes, w') \<Rightarrow>
              (if length matchedRoutes = 0
               then (None, w' @ [Log (NoMatchingRoutes from to)])
               else (None, executeRoutes P w' email matchedRoutes))))"

subsection \<open>The SMTP session (\<^verbatim>\<open>internal/smtp/server.go\<close>)\<close>

text \<open>
  A response line as \<^verbatim>\<open>sendResponse\<close> formats it (\<^verbatim>\<open>"%d %s\r\n"\<close>, the final line
  of a reply) or as \<^verbatim>\<open>sendMultiLineResponse\<close> formats the lines before the last
  (\<^verbatim>\<open>"%d-%s\r\n"\<close>).
\<close>

datatype wline = Final nat string | Cont nat string

text \<open>
  A connection is the TCP connection that a listener accepted, or a TLS connection that
  \<^verbatim>\<open>tls.Server\<close> has put around another connection.
\<close>

datatype conn = TCP | TLS conn

text \<open>
  The session: \<open>reader\<close> holds the bytes of the connection that are not read yet,
  \<open>writer\<close> the response lines sent so far.
\<close>

record Session =
  conn :: conn
  reader :: string
  writer :: "wline list"
  helo :: string
  mailFrom :: string
  rcptTo :: "string list"
  data :: string
  tlsEnabled :: bool

record Server =
  server_config :: Config
  processor :: Processor
  letsencryptMgr :: bool

definition sendResponse :: "Session \<Rightarrow> nat \<Rightarrow> string \<Rightarrow> Session" where
  "sendResponse s code message = s\<lparr>writer := writer s @ [Final code message]\<rparr>"

fun multiLines :: "nat \<Rightarrow> string list \<Rightarrow> wline list" where
  "multiLines code [] = []"
| "multiLines code [message] = [Final code message]"
| "multiLines code (message # messages) = Cont code message # multiLines code messages"

definition sendMultiLineResponse :: "Session \<Rightarrow> nat \<Rightarrow> string list \<Rightarrow> Session" where
  "sendMultiLineResponse s code messages = s\<lparr>writer := writer s @ multiLines code messages\<rparr>"

text \<open>
  \<^verbatim>\<open>bufio.Reader.ReadBytes(delim)\<close> and \<^verbatim>\<open>ReadString\<close>: the bytes up to and with the
  first delimiter, and the bytes left; an error when the input ends before one.
\<close>

definition ReadBytes :: "string \<Rightarrow> char \<Rightarrow> (string \<times> string) option" where
  "ReadBytes r delim =
     (if delim \<in> set r
      then Some (takeWhile (\<lambda>c. c \<noteq> delim) r @ [delim], tl (dropWhile (\<lambda>c. c \<noteq> delim) r))
      else None)"

lemma ReadBytes_shorter: "ReadBytes r delim = Some (line, rest) \<Longrightarrow> length rest < length r"
proof -
  assume a: "ReadBytes r delim = Some (line, rest)"
  then have mem: "delim \<in> set r" and rest: "rest = tl (dropWhile (\<lambda>c. c \<noteq> delim) r)"
    by (auto simp: ReadBytes_def split: if_splits)
  from mem have "dropWhile (\<lambda>c. c \<noteq> delim) r \<noteq> []" by simp
  then have "length rest < length (dropWhile (\<lambda>c. c \<noteq> delim) r)"
    using rest by (cases "dropWhile (\<lambda>c. c \<noteq> delim) r") auto
  also have "\<dots> \<le> length r" by (rule length_dropWhile_le)
  finally show ?thesis .
qed

definition handleHelo :: "Session \<Rightarrow> string \<Rightarrow> bool \<times> Session" where
  "handleHelo s args =
     (if args = [] then (True, sendResponse s 501 ''HELO requires domain address'')
      else (True, sendResponse (s\<lparr>helo := args\<rparr>) 250 (''Hello '' @ args)))"

definition handleEhlo :: "Server \<Rightarrow> Session \<Rightarrow> string \<Rightarrow> bool \<times> Session" where
  "handleEhlo srv s args =
     (if args = [] then (True, sendResponse s 501 ''EHLO requires domain address'')
      else
        (let s = s\<lparr>helo := args\<rparr>;
             responses = [Hostname (server_config srv) @ '' Hello '' @ args];
             responses = (if TLS_Enabled (server_config srv) \<and> \<not> tlsEnabled s
                          then responses @ [''STARTTLS''] else responses);
             responses = responses @ [''SIZE 104857600''];
             responses = responses @ [''8BITMIME''];
             responses = responses @ [''PIPELINING'']
         in (True, sendMultiLineResponse s 250 responses)))"

definition handleStartTLS :: "Server \<Rightarrow> Session \<Rightarrow> world \<Rightarrow> bool \<times> Session \<times> world" where
  "handleStartTLS srv s w =
     (if \<not> TLS_Enabled (server_config srv)
      then (True, sendResponse s 502 ''TLS not available'', w)
      else if tlsEnabled s
      then (True, sendResponse s 503 ''TLS already active'', w)
      else
        (let s = sendResponse s 220 ''Ready to start TLS'' in
         case (if letsencryptMgr srv then None
               else LoadX509KeyPair (lib (processor srv)) (TLS_CertFile (server_config srv))
                      (TLS_KeyFile (server_config srv))) of
           Some err \<Rightarrow>
             (True, sendResponse s 454 ''TLS not available'',
              w @ [Log (FailedToLoadTLSCertificates err)])
         | None \<Rightarrow>
            (case Handshake (lib (processor srv)) (reader s) of
               Inl err \<Rightarrow> (False, s, w @ [Log (TLSHandshakeFailed err)])
             | Inr n \<Rightarrow>
                (True,
                 s\<lparr>conn := TLS (conn s), reader := drop n (reader s), tlsEnabled := True,
                   helo := [], mailFrom := [], rcptTo := []\<rparr>,
                 w))))"

definition handleMail :: "Server \<Rightarrow> Session \<Rightarrow> string \<Rightarrow> bool \<times> Session" where
  "handleMail srv s args =
     (if helo s = [] then (True, sendResponse s 503 ''Need HELO first'')
      else if \<not> strings_HasPrefix (strings_ToUpper (lib (processor srv)) args) ''FROM:''
      then (True, sendResponse s 501 ''Syntax error in MAIL command'')
      else
        (let from = strings_TrimSpace (drop 5 args);
             from = (if strings_HasPrefix from ''<'' \<and> strings_HasSuffix from ''>''
                     then butlast (tl from) else from)
         in (True, sendResponse (s\<lparr>mailFrom := from, rcptTo := []\<rparr>) 250 ''OK'')))"

definition handleRcpt :: "Server \<Rightarrow> Session \<Rightarrow> string \<Rightarrow> bool \<times> Session" where
  "handleRcpt srv s args =
     (if mailFrom s = [] then (True, sendResponse s 503 ''Need MAIL first'')
      else if \<not> strings_HasPrefix (strings_ToUpper (lib (processor srv)) args) ''TO:''
      then (True, sendResponse s 501 ''Syntax error in RCPT command'')
      else
        (let to = strings_TrimSpace (drop 3 args);
             to = (if strings_HasPrefix to ''<'' \<and> strings_HasSuffix to ''>''
                   then butlast (tl to) else to)
         in (True, sendResponse (s\<lparr>rcptTo := rcptTo s @ [to]\<rparr>) 250 ''OK'')))"

text \<open>
  The read loop of \<^verbatim>\<open>handleData\<close>: the data gathered when the terminator line is
  read, with the bytes left in the reader; nothing when the input ends first. The test
  for the terminator and the removal of a leading dot are the two conditions of the
  loop body.
\<close>

definition isTerminator :: "string \<Rightarrow> bool" where
  "isTerminator line =
     (length line \<ge> 3 \<and> line ! 0 = CHR ''.'' \<and> line ! 1 = CR \<and> line ! 2 = LF)"

definition unstuff :: "string \<Rightarrow> string" where
  "unstuff line = (if length line > 0 \<and> line ! 0 = CHR ''.'' then drop 1 line else line)"

function readData :: "string \<Rightarrow> string \<Rightarrow> (string \<times> string) option" where
  "readData r dat =
     (case ReadBytes r LF of
        None \<Rightarrow> None
      | Some (line, rest) \<Rightarrow>
         (if isTerminator line then Some (dat, rest)
          else readData rest (dat @ unstuff line)))"
  by pat_completeness auto
termination
  by (relation "measure (\<lambda>(r, dat). length r)") (auto dest: ReadBytes_shorter)

declare readData.simps [simp del]

definition handleData :: "Server \<Rightarrow> Session \<Rightarrow> world \<Rightarrow> bool \<times> Session \<times> world" where
  "handleData srv s w =
     (if length (rcptTo s) = 0 then (True, sendResponse s 503 ''Need RCPT first'', w)
      else
        (let s = sendResponse s 354 ''Start mail input; end with <CRLF>.<CRLF>'' in
         case readData (reader s) [] of
           None \<Rightarrow> (False, s\<lparr>reader := []\<rparr>, w @ [Log (ErrorReadingData ''EOF'')])
         | Some (dat, rest) \<Rightarrow>
            (let s = s\<lparr>reader := rest, data := dat\<rparr> in
             case ProcessEmail (processor srv) w (mailFrom s) (rcptTo s) dat of
               (Some err, w') \<Rightarrow>
                 (True, sendResponse s 554 ''Transaction failed'',
                  w' @ [Log (ErrorProcessingEmail err)])
             | (None, w') \<Rightarrow>
                 (True, (sendResponse s 250 ''OK'')\<lparr>mailFrom := [], rcptTo := [], data := []\<rparr>,
                  w'))))"

definition handleRset :: "Session \<Rightarrow> bool \<times> Session" where
  "handleRset s = (True, sendResponse (s\<lparr>mailFrom := [], rcptTo := [], data := []\<rparr>) 250 ''OK'')"

definition handleQuit :: "Session \<Rightarrow> bool \<times> Session" where
  "handleQuit s = (False, sendResponse s 221 ''Bye'')"

definition pure :: "world \<Rightarrow> bool \<times> Session \<Rightarrow> bool \<times> Session \<times> world" where
  "pure w r = (fst r, snd r, w)"

definition handleCommand :: "Server \<Rightarrow> Session \<Rightarrow> world \<Rightarrow> string \<Rightarrow> string \<Rightarrow>
    bool \<times> Session \<times> world" where
  "handleCommand srv s w command args =
     (if command = ''HELO'' then pure w (handleHelo s args)
      else if command = ''EHLO'' then pure w (handleEhlo srv s args)
      else if command = ''STARTTLS'' then handleStartTLS srv s w
      else if command = ''MAIL'' then pure w (handleMail srv s args)
      else if command = ''RCPT'' then pure w (handleRcpt srv s args)
      else if command = ''DATA'' then handleData srv s w
      else if command = ''RSET'' then pure w (handleRset s)
      else if command = ''QUIT'' then pure w (handleQuit s)
      else if command = ''NOOP'' then (True, sendResponse s 250 ''OK'', w)
      else (True, sendResponse s 500 ''Command not recognized'', w))"










subsection \<open>Notions used to state the properties\<close>

text \<open>
  The loop of \<^verbatim>\<open>handleConnection\<close> on lines that are already split into a command and
  its arguments: the commands are handled one after the other until a handler returns
  false.
\<close>

fun handleCommands :: "Server \<Rightarrow> Session \<Rightarrow> world \<Rightarrow> (string \<times> string) list \<Rightarrow>
    bool \<times> Session \<times> world" where
  "handleCommands srv s w [] = (True, s, w)"
| "handleCommands srv s w (c # cs) =
     (case handleCommand srv s w (fst c) (snd c) of
        (True, s', w') \<Rightarrow> handleCommands srv s' w' cs
      | (False, s', w') \<Rightarrow> (False, s', w'))"

text \<open>What a list of events says about routes, storage calls, HTTP requests and pauses.\<close>

fun routeOutcome :: "event \<Rightarrow> (string \<times> bool) list" where
  "routeOutcome (Log (FailedToExecuteRoute name err)) = [(name, False)]"
| "routeOutcome (Log (SuccessfullyExecutedRoute name)) = [(name, True)]"
| "routeOutcome _ = []"

definition routeOutcomes :: "world \<Rightarrow> (string \<times> bool) list" where
  "routeOutcomes w = concat (map routeOutcome w)"

fun storageCall :: "event \<Rightarrow> call list" where
  "storageCall (Storage c r) = [c]"
| "storageCall _ = []"

definition storageCalls :: "world \<Rightarrow> call list" where
  "storageCalls w = concat (map storageCall w)"

fun httpRequest :: "event \<Rightarrow> (string \<times> string) list" where
  "httpRequest (Http method url hdr body resp) = [(method, url)]"
| "httpRequest _ = []"

definition httpRequests :: "world \<Rightarrow> (string \<times> string) list" where
  "httpRequests w = concat (map httpRequest w)"

fun pause :: "event \<Rightarrow> nat list" where
  "pause (Sleep n) = [n]"
| "pause _ = []"

definition pauses :: "world \<Rightarrow> nat list" where
  "pauses w = concat (map pause w)"

text \<open>
  The matching rule in the words of the specification: a pattern that is given must
  compile and match one of the values; a rule matches when its three patterns do.
\<close>

definition patternMatches :: "golib \<Rightarrow> string \<Rightarrow> string list \<Rightarrow> bool" where
  "patternMatches L pattern vals =
     (pattern = [] \<or> (Compile L pattern = None \<and> list_ex (MatchString L pattern) vals))"

definition ruleMatches :: "golib \<Rightarrow> Email \<Rightarrow> RouteConfig \<Rightarrow> bool" where
  "ruleMatches L email route =
     (patternMatches L (RecipientPattern (Route_Condition route)) (To email)
      \<and> patternMatches L (SenderPattern (Route_Condition route)) [From email]
      \<and> patternMatches L (SubjectPattern (Route_Condition route)) [Subject email])"

text \<open>
  The events that matching writes, and the extensions of a list of events that hold no
  outcome line of a route.
\<close>

fun isPatternLog :: "event \<Rightarrow> bool" where
  "isPatternLog (Log (InvalidRecipientPattern name err)) = True"
| "isPatternLog (Log (InvalidSenderPattern name err)) = True"
| "isPatternLog (Log (InvalidSubjectPattern name err)) = True"
| "isPatternLog _ = False"

definition quiet :: "world \<Rightarrow> world \<Rightarrow> bool" where
  "quiet w w' = (\<exists>evs. w' = w @ evs \<and> routeOutcomes evs = [])"

text \<open>
  The sending side of \<^verbatim>\<open>DATA\<close> (RFC 5321, section 4.5.2, and the \<^verbatim>\<open>net/smtp\<close> client
  of the repository's tests): the body goes out line by line, a line that begins with
  a dot gets one more dot in front, and the line \<^verbatim>\<open>.\r\n\<close> ends the body. A line is a
  run of bytes that ends with its only line feed.
\<close>

definition isLine :: "string \<Rightarrow> bool" where
  "isLine l = (l \<noteq> [] \<and> last l = LF \<and> LF \<notin> set (butlast l))"

definition dotStuff :: "string \<Rightarrow> string" where
  "dotStuff l = (if l \<noteq> [] \<and> hd l = CHR ''.'' then CHR ''.'' # l else l)"

definition transmit :: "string list \<Rightarrow> string" where
  "transmit ls = concat (map dotStuff ls) @ ''.'' @ CRLF"

text \<open>
  When the parser fails, said without the email under construction. A transfer
  encoding cannot be undone when it is \<^verbatim>\<open>base64\<close> and the data is not; a part is
  broken when its data cannot be read or cannot be decoded; \<open>nestedBody\<close> is the body
  and the boundary of a part that \<^verbatim>\<open>parseMultipart\<close> descends into, which does not
  depend on the email. The parts of a multipart body fail when reading them ends with
  an error, or one of them is broken, or the parts of a nested body fail; and
  \<open>parseFails\<close> follows \<^verbatim>\<open>ParseEmail\<close>.
\<close>

definition contentTypeOf :: "Message \<Rightarrow> string" where
  "contentTypeOf msg =
     (if Header_Get (Header msg) ''Content-Type'' = [] then ''text/plain''
      else Header_Get (Header msg) ''Content-Type'')"

definition emptyEmail :: Email where
  "emptyEmail =
     \<lparr>From = [], To = [], Subject = [], Date = 0, MessageID = [], Headers = [], Body = [],
      HTMLBody = [], Attachments = [], Raw = []\<rparr>"

definition undecodable :: "golib \<Rightarrow> string \<Rightarrow> string \<Rightarrow> bool" where
  "undecodable L dat encoding =
     (strings_ToLower L (strings_TrimSpace encoding) = ''base64'' \<and> base64_Decode dat = None)"

definition partBroken :: "golib \<Rightarrow> Part \<Rightarrow> bool" where
  "partBroken L part =
     (case PartData part of
        Inl err \<Rightarrow> True
      | Inr partData \<Rightarrow>
          undecodable L partData (Header_Get (PartHeader part) ''Content-Transfer-Encoding''))"

definition nestedBody :: "golib \<Rightarrow> Part \<Rightarrow> (string \<times> string) option" where
  "nestedBody L part =
     (case handlePart L emptyEmail part of
        Nested decoded boundary \<Rightarrow> Some (decoded, boundary)
      | _ \<Rightarrow> None)"




text \<open>
  A multipart reader hands out parts whose data is shorter than the body it reads: the
  delimiter lines are not part of any part.
\<close>

definition partSize :: "Part \<Rightarrow> nat" where
  "partSize part = (case PartData part of Inl err \<Rightarrow> 0 | Inr partData \<Rightarrow> length partData)"

definition shrinking :: "golib \<Rightarrow> bool" where
  "shrinking L =
     (\<forall>body boundary. \<forall>part \<in> set (fst (MultipartRead L body boundary)).
        partSize part < length body)"

text \<open>
  The same with the depth of \<^verbatim>\<open>parseParts\<close>, for evaluation: \<open>partsFailN n\<close> is the
  failure of \<open>parseParts n\<close>, the exhausted depth included, and \<open>parseFailsN\<close> is
  \<open>parseFails\<close> with the depth that \<^verbatim>\<open>ParseEmail\<close> starts from.
\<close>

fun partsFailN :: "nat \<Rightarrow> golib \<Rightarrow> Part list \<Rightarrow> error option \<Rightarrow> bool" where
  "partsFailN n L [] fin = (fin \<noteq> None)"
| "partsFailN n L (part # parts) fin =
     (partBroken L part \<or>
      (case nestedBody L part of
         None \<Rightarrow> partsFailN n L parts fin
       | Some (decoded, boundary) \<Rightarrow>
          (case n of
             0 \<Rightarrow> True
           | Suc m \<Rightarrow>
               partsFailN m L (fst (MultipartRead L decoded boundary))
                 (snd (MultipartRead L decoded boundary))
               \<or> partsFailN n L parts fin)))"

definition parseFailsN :: "golib \<Rightarrow> string \<Rightarrow> bool" where
  "parseFailsN L rawData =
     (case mail_ReadMessage L rawData of
        Inl err \<Rightarrow> True
      | Inr msg \<Rightarrow>
          (let mediaType = fst (ParseMediaType L (contentTypeOf msg));
               boundary = lookup (fst (snd (ParseMediaType L (contentTypeOf msg)))) ''boundary''
           in snd (snd (ParseMediaType L (contentTypeOf msg))) \<noteq> None
              \<or> (if strings_HasPrefix mediaType ''multipart/''
                  then boundary = []
                       \<or> partsFailN (length (MsgBody msg)) L
                            (fst (MultipartRead L (MsgBody msg) boundary))
                            (snd (MultipartRead L (MsgBody msg) boundary))
                  else undecodable L (MsgBody msg)
                         (Header_Get (Header msg) ''Content-Transfer-Encoding''))))"

text \<open>
  The path under which \<^verbatim>\<open>executeLocalStorage\<close> and \<^verbatim>\<open>executeS3Storage\<close> store the
  \<^verbatim>\<open>.eml\<close> file of an email for an action.
\<close>

definition emlPath :: "Processor \<Rightarrow> Email \<Rightarrow> Action \<Rightarrow> string" where
  "emlPath P email action =
     folderPath_of P email
       (if lookup (Action_Config action) ''folder'' = [] then ''default''
        else lookup (Action_Config action) ''folder'')
     @ ''/'' @ generateFilename P email"


subsection \<open>A small instance of the library, for the examples\<close>

text \<open>
  Stand-ins for the library functions, simple enough to evaluate. Each agrees with the
  Go function on the inputs of the examples below: header blocks of unfolded
  \<^verbatim>\<open>Name: value\<close> lines that end with an empty line (a value loses the blanks and
  tabs around it), media types with
  \<^verbatim>\<open>key=value\<close> parameters, header text without encoded words, and patterns made of
  letters, digits and \<^verbatim>\<open>@\<close>, which match where they occur; the pattern \<^verbatim>\<open>[\<close> does
  not compile. No example asks the case tables of Unicode: what the examples put in
  upper or lower case is ASCII text.
\<close>

definition trimBlanks :: "string \<Rightarrow> string" where
  "trimBlanks v =
     rev (dropWhile (\<lambda>c. c = CHR '' '' \<or> c = CHR 0x09)
            (rev (dropWhile (\<lambda>c. c = CHR '' '' \<or> c = CHR 0x09) v)))"

definition chomp :: "string \<Rightarrow> string" where
  "chomp l = (if l \<noteq> [] \<and> last l = CR then butlast l else l)"

fun simpleFields :: "string list \<Rightarrow> error + ((string \<times> string) list \<times> string)" where
  "simpleFields [] = Inl ''EOF''"
| "simpleFields (l # ls) =
     (if chomp l = [] then Inr ([], join ls [LF])
      else if CHR '':'' \<notin> set l \<or> takeWhile (\<lambda>c. c \<noteq> CHR '':'') l = []
      then Inl ''malformed MIME header line''
      else (case simpleFields ls of
              Inl err \<Rightarrow> Inl err
            | Inr (fs, body) \<Rightarrow>
               Inr ((takeWhile (\<lambda>c. c \<noteq> CHR '':'') l,
                     trimBlanks (chomp (tl (dropWhile (\<lambda>c. c \<noteq> CHR '':'') l)))) # fs, body)))"

definition isTokenChar :: "char \<Rightarrow> bool" where
  "isTokenChar c = (validHeaderFieldByte c \<or> c = CHR 0x7B \<or> c = CHR 0x7D)"

definition checkMediaType :: "string \<Rightarrow> error option" where
  "checkMediaType s =
     (let typ = takeWhile isTokenChar s; rest = dropWhile isTokenChar s in
      if typ = [] then Some ''mime: no media type''
      else if rest = [] then None
      else if hd rest \<noteq> CHR ''/'' then Some ''mime: expected slash after first token''
      else if takeWhile isTokenChar (tl rest) = [] then Some ''mime: expected token after slash''
      else if dropWhile isTokenChar (tl rest) \<noteq> []
      then Some ''mime: unexpected content after media subtype''
      else None)"

definition unquote :: "string \<Rightarrow> string" where
  "unquote v =
     (if length v \<ge> 2 \<and> hd v = CHR 0x22 \<and> last v = CHR 0x22 then butlast (tl v) else v)"

fun simpleParams :: "string list \<Rightarrow> (string \<times> string) list option" where
  "simpleParams [] = Some []"
| "simpleParams (p # ps) =
     (if strings_TrimSpace p = [] then simpleParams ps
      else (case strings_SplitN2 (strings_TrimSpace p) (CHR ''='') of
              [k, v] \<Rightarrow>
                (case simpleParams ps of
                   None \<Rightarrow> None
                 | Some kvs \<Rightarrow> Some ((map lower_byte (strings_TrimSpace k), unquote v) # kvs))
            | _ \<Rightarrow> None))"

definition simpleMediaType :: "string \<Rightarrow> string \<times> (string \<times> string) list \<times> error option" where
  "simpleMediaType v =
     (let pieces = strings_Split v (CHR '';'');
          mediatype = strings_TrimSpace (map lower_byte (hd pieces))
      in case checkMediaType mediatype of
           Some err \<Rightarrow> ([], [], Some err)
         | None \<Rightarrow>
            (case simpleParams (tl pieces) of
               None \<Rightarrow> (mediatype, [], Some ''mime: invalid media parameter'')
             | Some kvs \<Rightarrow> (mediatype, kvs, None)))"

definition golib0 :: golib where
  "golib0 =
     \<lparr>ReadHeaderFields = (\<lambda>raw. simpleFields (strings_Split raw LF)),
      ParseMediaType = simpleMediaType,
      DecodeHeader = (\<lambda>header. Inr header),
      ParseDate = (\<lambda>v. Inl ''mail: header could not be parsed''),
      Format = (\<lambda>t layout. layout),
      MultipartRead = (\<lambda>body boundary. ([], None)),
      Compile = (\<lambda>p. if p = ''['' then Some ''error parsing regexp: missing closing ]'' else None),
      MatchString = (\<lambda>p v. strings_Contains v p),
      ConvertToMarkdown = (\<lambda>baseURL folderPath e. []),
      Marshal = (\<lambda>payload. Inr ''{}''),
      MarshalIndent = (\<lambda>payload. Inr ''{}''),
      NewRequest = (\<lambda>method url. None),
      LoadX509KeyPair = (\<lambda>certFile keyFile. None),
      Handshake = (\<lambda>r. Inr 0),
      Listen = (\<lambda>port. None),
      ToUpperUnicode = (\<lambda>s. s),
      ToLowerUnicode = (\<lambda>s. s)\<rparr>"

text \<open>A configuration with local storage, and sinks where every call succeeds.\<close>

definition config0 :: "RouteConfig list \<Rightarrow> Config" where
  "config0 rs =
     \<lparr>Hostname = ''mx'', TLS_Enabled = True, TLS_CertFile = ''cert.pem'',
      TLS_KeyFile = ''key.pem'', S3_Enabled = False, Local_Enabled = True, Routes = rs\<rparr>"

definition processor0 :: "RouteConfig list \<Rightarrow> Processor" where
  "processor0 rs =
     \<lparr>config = config0 rs, lib = golib0,
      storageBackend = (\<lambda>w c. None),
      httpClient = (\<lambda>w method url hdr body. Inr 200),
      clock = (\<lambda>w. 0)\<rparr>"

definition server0 :: "RouteConfig list \<Rightarrow> Server" where
  "server0 rs = \<lparr>server_config = config0 rs, processor = processor0 rs, letsencryptMgr = False\<rparr>"

definition session0 :: Session where
  "session0 =
     \<lparr>conn = TCP, reader = [], writer = [], helo = [], mailFrom = [], rcptTo = [], data = [],
      tlsEnabled = False\<rparr>"

definition route0 :: "string \<Rightarrow> string \<Rightarrow> Action list \<Rightarrow> RouteConfig" where
  "route0 name pattern actions =
     \<lparr>Route_Name = name,
      Route_Condition = \<lparr>RecipientPattern = pattern, SenderPattern = [], SubjectPattern = []\<rparr>,
      Route_Actions = actions, Route_Enabled = True\<rparr>"

definition storeLocal0 :: Action where
  "storeLocal0 =
     \<lparr>Action_Type = ''store_local'', Action_Config = [(''folder'', ''capture'')],
      Action_Enabled = True\<rparr>"

definition webhook0 :: Action where
  "webhook0 =
     \<lparr>Action_Type = ''webhook'', Action_Config = [(''url'', ''http://localhost:8080/webhook'')],
      Action_Enabled = True\<rparr>"


definition session1 :: Session where
  "session1 = session0\<lparr>helo := ''client'', mailFrom := ''a@b'', rcptTo := [''c@d'']\<rparr>"

text \<open>A message body with a line that begins with a dot and a line made of one dot.\<close>

definition body1 :: "string list" where
  "body1 = [''Subject: hi'' @ CRLF, CRLF, ''.hidden'' @ CRLF, ''.'' @ CRLF, ''end'' @ CRLF]"



definition email1 :: Email where
  "email1 =
     \<lparr>From = ''a@b'', To = [''other@x'', ''capture@test''], Subject = ''hi'', Date = 0,
      MessageID = [], Headers = [(''Subject'', [''hi''])],
      Body = ''.hidden'' @ CRLF @ ''.'' @ CRLF @ ''end'' @ CRLF, HTMLBody = [],
      Attachments = [], Raw = concat body1\<rparr>"


text \<open>A processor whose webhook endpoint answers 500, one whose endpoint answers 500 to
  the first request only, and the two HTTP events of the examples.\<close>

definition processor500 :: "RouteConfig list \<Rightarrow> Processor" where
  "processor500 rs = (processor0 rs)\<lparr>httpClient := (\<lambda>w method url hdr body. Inr 500)\<rparr>"

definition processorFlaky :: "RouteConfig list \<Rightarrow> Processor" where
  "processorFlaky rs =
     (processor0 rs)\<lparr>httpClient :=
        (\<lambda>w method url hdr body. if httpRequests w = [] then Inr 500 else Inr 200)\<rparr>"

definition http500 :: event where
  "http500 =
     Http ''POST'' ''http://localhost:8080/webhook''
       [(''Content-Type'', ''application/json''),
        (''User-Agent'', ''email-catch/2.0-markdown-compression'')]
       ''{}'' (Inr 500)"

definition http200 :: event where
  "http200 =
     Http ''POST'' ''http://localhost:8080/webhook''
       [(''Content-Type'', ''application/json''),
        (''User-Agent'', ''email-catch/2.0-markdown-compression'')]
       ''{}'' (Inr 200)"

text \<open>A server with that processor, the line \<^verbatim>\<open>354\<close>, and two sessions about to read
  a message body: one that parses and one whose header block is malformed.\<close>

definition server500 :: "RouteConfig list \<Rightarrow> Server" where
  "server500 rs =
     \<lparr>server_config = config0 rs, processor = processor500 rs, letsencryptMgr = False\<rparr>"

definition start354 :: wline where
  "start354 = Final 354 ''Start mail input; end with <CRLF>.<CRLF>''"

definition session2 :: Session where
  "session2 = session1\<lparr>reader := transmit body1\<rparr>"

definition session3 :: Session where
  "session3 = session1\<lparr>reader := ''no header here'' @ CRLF @ CRLF @ ''.'' @ CRLF\<rparr>"

text \<open>A message whose header block spells one field name in two ways, and the email it
  parses to.\<close>

definition raw8 :: string where
  "raw8 = ''subject: Hi'' @ CRLF @ ''To: x@y'' @ CRLF @ ''SUBJECT: again'' @ CRLF @ CRLF @ ''text''"

definition email8 :: Email where
  "email8 =
     \<lparr>From = ''a@b'', To = [''c@d''], Subject = ''Hi'', Date = 0, MessageID = [],
      Headers = [(''Subject'', [''Hi'', ''again'']), (''To'', [''x@y''])],
      Body = ''text'', HTMLBody = [], Attachments = [], Raw = raw8\<rparr>"











section \<open>Properties of the parser\<close>

subsection \<open>The raw bytes are kept\<close>

lemma handlePart_Raw_aux:
  "(case handlePart L e part of Continue e' \<Rightarrow> Raw e' = Raw e | _ \<Rightarrow> True)"
  by (simp add: handlePart_def Let_def split: sum.split)

lemma handlePart_Raw: "handlePart L e part = Continue e' \<Longrightarrow> Raw e' = Raw e"
  using handlePart_Raw_aux [where L = L and e = e and part = part] by simp

lemma parseParts_Raw: "parseParts n L e parts fin = Inr e' \<Longrightarrow> Raw e' = Raw e"
proof (induction n L e parts fin arbitrary: e' rule: parseParts.induct)
  case (1 n L e fin)
  then show ?case by (simp split: option.splits)
next
  case (2 n L e part parts fin)
  show ?case
  proof (cases "handlePart L e part")
    case (PartFail err)
    with "2.prems" show ?thesis by simp
  next
    case (Continue e1)
    with "2.prems" have "parseParts n L e1 parts fin = Inr e'" by simp
    from "2.IH"(1) [OF Continue this] handlePart_Raw [OF Continue] show ?thesis by simp
  next
    case (Nested decoded boundary)
    show ?thesis
    proof (cases n)
      case 0
      with "2.prems" Nested show ?thesis by simp
    next
      case (Suc m)
      let ?inner = "parseParts m L e (fst (MultipartRead L decoded boundary))
                      (snd (MultipartRead L decoded boundary))"
      show ?thesis
      proof (cases ?inner)
        case (Inl err)
        with "2.prems" Nested Suc show ?thesis by simp
      next
        case (Inr e1)
        with "2.prems" Nested Suc have rest: "parseParts n L e1 parts fin = Inr e'" by simp
        from "2.IH"(2) [OF Nested Suc Inr] have "Raw e1 = Raw e" .
        moreover from "2.IH"(3) [OF Nested Suc Inr rest] have "Raw e' = Raw e1" .
        ultimately show ?thesis by simp
      qed
    qed
  qed
qed

lemma headerEmail_Raw: "Raw (headerEmail L now msg rawData from to) = rawData"
  by (simp add: headerEmail_def Let_def split: sum.split)

lemma ParseEmail_Raw: "ParseEmail L now rawData from to = Inr e \<Longrightarrow> Raw e = rawData"
  by (auto simp: ParseEmail_def parseMultipart_def Let_def headerEmail_Raw
      split: sum.splits option.splits if_splits dest!: parseParts_Raw)


subsection \<open>Transfer decoding\<close>

lemma decodeContent_passes_through:
  "strings_ToLower L (strings_TrimSpace encoding) \<noteq> ''base64'' \<Longrightarrow>
   decodeContent L dat encoding = Inr dat"
  by (simp add: decodeContent_def Let_def)

lemma decodeContent_base64:
  "strings_ToLower L (strings_TrimSpace encoding) = ''base64'' \<Longrightarrow>
   decodeContent L dat encoding =
     (case base64_Decode dat of
        None \<Rightarrow> Inl ''failed to decode base64: illegal base64 data''
      | Some decoded \<Rightarrow> Inr decoded)"
  by (simp add: decodeContent_def Let_def split: option.split)

text \<open>
  C4. Content declared \<^verbatim>\<open>quoted-printable\<close> is returned as it is: \<^verbatim>\<open>=41=42\<close> stays
  \<^verbatim>\<open>=41=42\<close> where decoding gives \<^verbatim>\<open>AB\<close>, and a message with that transfer
  encoding and no multipart structure gets the encoded text as its body. (The other
  encodings are as claimed: the two lemmas above.)
\<close>

theorem quoted_printable_is_not_decoded:
  "decodeContent L ''=41=42'' ''quoted-printable'' = Inr ''=41=42''
   \<and> decodeContent L dat ''quoted-printable'' = Inr dat
   \<and> Body (projr (ParseEmail golib0 now
        (''Content-Transfer-Encoding: quoted-printable'' @ CRLF @ CRLF @ ''=41=42'')
        ''a@b'' [''c@d''])) = ''=41=42''"
proof (intro conjI)
  have "strings_TrimSpace ''quoted-printable'' = ''quoted-printable''" by code_simp
  moreover have "list_all isASCII ''quoted-printable''" by code_simp
  moreover have "map lower_byte ''quoted-printable'' \<noteq> ''base64''" by code_simp
  ultimately have n: "strings_ToLower L (strings_TrimSpace ''quoted-printable'') \<noteq> ''base64''"
    by (simp add: strings_ToLower_def)
  show "decodeContent L ''=41=42'' ''quoted-printable'' = Inr ''=41=42''"
    by (rule decodeContent_passes_through [OF n])
  show "decodeContent L dat ''quoted-printable'' = Inr dat"
    by (rule decodeContent_passes_through [OF n])
  show "Body (projr (ParseEmail golib0 now
        (''Content-Transfer-Encoding: quoted-printable'' @ CRLF @ CRLF @ ''=41=42'')
        ''a@b'' [''c@d''])) = ''=41=42''"
    by code_simp
qed

subsection \<open>The header map\<close>

lemma handlePart_keeps_aux:
  "(case handlePart L e part of
      Continue e' \<Rightarrow> Headers e' = Headers e
    | _ \<Rightarrow> True)"
  by (simp add: handlePart_def Let_def split: sum.split)

lemma handlePart_Headers: "handlePart L e part = Continue e' \<Longrightarrow> Headers e' = Headers e"
  using handlePart_keeps_aux [where L = L and e = e and part = part] by simp

lemma parseParts_Headers: "parseParts n L e parts fin = Inr e' \<Longrightarrow> Headers e' = Headers e"
proof (induction n L e parts fin arbitrary: e' rule: parseParts.induct)
  case (1 n L e fin)
  then show ?case by (simp split: option.splits)
next
  case (2 n L e part parts fin)
  show ?case
  proof (cases "handlePart L e part")
    case (PartFail err)
    with "2.prems" show ?thesis by simp
  next
    case (Continue e1)
    with "2.prems" have "parseParts n L e1 parts fin = Inr e'" by simp
    from "2.IH"(1) [OF Continue this] handlePart_Headers [OF Continue] show ?thesis by simp
  next
    case (Nested decoded boundary)
    show ?thesis
    proof (cases n)
      case 0
      with "2.prems" Nested show ?thesis by simp
    next
      case (Suc m)
      let ?inner = "parseParts m L e (fst (MultipartRead L decoded boundary))
                      (snd (MultipartRead L decoded boundary))"
      show ?thesis
      proof (cases ?inner)
        case (Inl err)
        with "2.prems" Nested Suc show ?thesis by simp
      next
        case (Inr e1)
        with "2.prems" Nested Suc have rest: "parseParts n L e1 parts fin = Inr e'" by simp
        from "2.IH"(2) [OF Nested Suc Inr] have "Headers e1 = Headers e" .
        moreover from "2.IH"(3) [OF Nested Suc Inr rest] have "Headers e' = Headers e1" .
        ultimately show ?thesis by simp
      qed
    qed
  qed
qed

lemma headerEmail_Headers:
  "Headers (headerEmail L now msg rawData from to) =
     map (\<lambda>(key, vals). (key, map (decodeMIMEHeader L) vals)) (Header msg)"
  by (simp add: headerEmail_def Let_def split: sum.split)

lemma ParseEmail_Headers:
  assumes "ParseEmail L now rawData from to = Inr e"
      and "ReadHeaderFields L rawData = Inr (fs, body)"
  shows "Headers e = map (\<lambda>(key, vals). (key, map (decodeMIMEHeader L) vals)) (buildHeader fs)"
  using assms
  by (auto simp: ParseEmail_def mail_ReadMessage_def parseMultipart_def Let_def
      headerEmail_Headers
      split: sum.splits option.splits if_splits dest!: parseParts_Headers)

lemma values_of_update:
  "values_of (AList.update k v h) key = (if key = k then v else values_of h key)"
  by (simp add: values_of_def update_conv')

lemma values_of_addField:
  "values_of (addField h f) key =
     values_of h key @ (if CanonicalMIMEHeaderKey (fst f) = key then [snd f] else [])"
  by (auto simp: addField_def Let_def values_of_update)

lemma values_of_foldl:
  "values_of (foldl addField h fs) key =
     values_of h key @ map snd (filter (\<lambda>f. CanonicalMIMEHeaderKey (fst f) = key) fs)"
  by (induction fs arbitrary: h) (auto simp: values_of_addField)

lemma keys_addField:
  "fst ` set (addField h f) = insert (CanonicalMIMEHeaderKey (fst f)) (fst ` set h)"
  by (simp add: addField_def Let_def dom_update)

lemma keys_foldl:
  "fst ` set (foldl addField h fs) = fst ` set h \<union> CanonicalMIMEHeaderKey ` fst ` set fs"
  by (induction fs arbitrary: h) (auto simp: keys_addField)

lemma distinct_addField: "distinct (map fst h) \<Longrightarrow> distinct (map fst (addField h f))"
  by (simp add: addField_def Let_def distinct_update)

lemma distinct_foldl: "distinct (map fst h) \<Longrightarrow> distinct (map fst (foldl addField h fs))"
  by (induction fs arbitrary: h) (auto simp: distinct_addField)


lemma map_of_buildHeader:
  "map_of (buildHeader fs) key =
     (if key \<in> CanonicalMIMEHeaderKey ` fst ` set fs
      then Some (map snd (filter (\<lambda>f. CanonicalMIMEHeaderKey (fst f) = key) fs))
      else None)"
proof (cases "key \<in> CanonicalMIMEHeaderKey ` fst ` set fs")
  case True
  then have "key \<in> fst ` set (buildHeader fs)"
    by (simp add: buildHeader_def keys_foldl)
  then obtain vs where vs: "map_of (buildHeader fs) key = Some vs"
    by (metis map_of_eq_None_iff not_Some_eq)
  then have "values_of (buildHeader fs) key = vs" by (simp add: values_of_def)
  with values_of_foldl [of "[]" fs key]
  have "vs = map snd (filter (\<lambda>f. CanonicalMIMEHeaderKey (fst f) = key) fs)"
    by (simp add: buildHeader_def values_of_def)
  with vs True show ?thesis by simp
next
  case False
  then have "key \<notin> fst ` set (buildHeader fs)"
    by (simp add: buildHeader_def keys_foldl)
  then have "map_of (buildHeader fs) key = None"
    by (simp add: map_of_eq_None_iff)
  with False show ?thesis by simp
qed

text \<open>
  C8, as the code has it. The header map of \<^verbatim>\<open>mail.ReadMessage\<close> is keyed by canonical
  names, and \<^verbatim>\<open>ParseEmail\<close> copies its keys: \<open>Headers\<close> has one entry per canonical
  name, which holds the decoded values of all fields with that canonical name, in
  arrival order, and no entry under any other spelling. A lookup in \<open>Headers\<close> is the
  lookup of a Go map: the key as it is.
\<close>

theorem headers_under_canonical_names:
  assumes "ParseEmail L now rawData from to = Inr e"
      and "ReadHeaderFields L rawData = Inr (fs, body)"
  shows "distinct (map fst (Headers e))
     \<and> map_of (Headers e) key =
         (if key \<in> CanonicalMIMEHeaderKey ` fst ` set fs
          then Some (map (decodeMIMEHeader L)
                  (map snd (filter (\<lambda>f. CanonicalMIMEHeaderKey (fst f) = key) fs)))
          else None)"
proof -
  let ?g = "map (decodeMIMEHeader L)"
  have H: "Headers e = map (\<lambda>(key, vals). (key, ?g vals)) (buildHeader fs)"
    by (rule ParseEmail_Headers [OF assms])
  have "map fst (Headers e) = map fst (buildHeader fs)"
    unfolding H by (simp add: case_prod_unfold o_def)
  moreover have "distinct (map fst (buildHeader fs))"
    unfolding buildHeader_def by (rule distinct_foldl) simp
  ultimately have d: "distinct (map fst (Headers e))" by simp
  have "map_of (Headers e) key = map_option ?g (map_of (buildHeader fs) key)"
    unfolding H by (simp add: map_of_map)
  with d show ?thesis by (simp add: map_of_buildHeader)
qed

text \<open>
  The claim as stated fails for a message whose fields are written \<^verbatim>\<open>subject\<close> and
  \<^verbatim>\<open>SUBJECT\<close>: both values are stored under \<^verbatim>\<open>Subject\<close>, and looking up either
  spelling of the wire finds nothing.
\<close>

theorem header_casing_counterexample:
  "ReadHeaderFields golib0 raw8 =
     Inr ([(''subject'', ''Hi''), (''To'', ''x@y''), (''SUBJECT'', ''again'')], ''text'')
   \<and> ParseEmail golib0 0 raw8 ''a@b'' [''c@d''] = Inr email8
   \<and> map fst (Headers email8) = [''Subject'', ''To'']
   \<and> map_of (Headers email8) ''subject'' = None
   \<and> map_of (Headers email8) ''SUBJECT'' = None
   \<and> map_of (Headers email8) ''Subject'' = Some [''Hi'', ''again'']"
  by code_simp

theorem headers_under_canonical_names_witness:
  "ParseEmail golib0 0 raw8 ''a@b'' [''c@d''] = Inr email8
   \<and> ReadHeaderFields golib0 raw8 =
       Inr ([(''subject'', ''Hi''), (''To'', ''x@y''), (''SUBJECT'', ''again'')], ''text'')
   \<and> distinct (map fst (Headers email8))
   \<and> map_of (Headers email8) ''Subject'' = Some [''Hi'', ''again'']
   \<and> map_of (Headers email8) ''subject'' = None"
proof -
  let ?fs = "[(''subject'', ''Hi''), (''To'', ''x@y''), (''SUBJECT'', ''again'')]"
  have p: "ParseEmail golib0 0 raw8 ''a@b'' [''c@d''] = Inr email8" by code_simp
  have f: "ReadHeaderFields golib0 raw8 = Inr (?fs, ''text'')" by code_simp
  have k1: "''Subject'' \<in> CanonicalMIMEHeaderKey ` fst ` set ?fs" by code_simp
  have k2: "''subject'' \<notin> CanonicalMIMEHeaderKey ` fst ` set ?fs" by code_simp
  have v: "map (decodeMIMEHeader golib0)
      (map snd (filter (\<lambda>f. CanonicalMIMEHeaderKey (fst f) = ''Subject'') ?fs)) = [''Hi'', ''again'']"
    by code_simp
  from headers_under_canonical_names [OF p f, of "''Subject''"] k1 v
  have a: "distinct (map fst (Headers email8))
      \<and> map_of (Headers email8) ''Subject'' = Some [''Hi'', ''again'']" by simp
  from headers_under_canonical_names [OF p f, of "''subject''"] k2
  have b: "map_of (Headers email8) ''subject'' = None" by simp
  show ?thesis using p f a b by simp
qed

subsection \<open>The failures of the parser\<close>

lemma decodeContent_fails: "isl (decodeContent L dat encoding) = undecodable L dat encoding"
  by (simp add: decodeContent_def undecodable_def Let_def split: option.split)

lemma handlePart_shape:
  "(case handlePart L e part of
      PartFail err \<Rightarrow> partBroken L part
    | Continue e' \<Rightarrow> \<not> partBroken L part \<and> nestedBody L part = None
    | Nested decoded boundary \<Rightarrow>
        \<not> partBroken L part \<and> nestedBody L part = Some (decoded, boundary))"
proof (cases "PartData part")
  case (Inl err)
  then show ?thesis by (simp add: handlePart_def partBroken_def)
next
  case (Inr partData)
  let ?enc = "Header_Get (PartHeader part) ''Content-Transfer-Encoding''"
  show ?thesis
  proof (cases "decodeContent L partData ?enc")
    case (Inl err)
    then have "undecodable L partData ?enc"
      using decodeContent_fails [of L partData ?enc] by simp
    with Inl Inr show ?thesis by (simp add: handlePart_def partBroken_def)
  next
    case ok: (Inr decoded)
    then have nb: "\<not> partBroken L part"
      using decodeContent_fails [of L partData ?enc] Inr by (simp add: partBroken_def)
    show ?thesis
      using Inr ok nb
      by (simp add: handlePart_def nestedBody_def Let_def)
  qed
qed

lemma parseParts_failsN: "isl (parseParts n L e parts fin) = partsFailN n L parts fin"
proof (induction n L e parts fin rule: parseParts.induct)
  case (1 n L e fin)
  show ?case by (simp split: option.split)
next
  case (2 n L e part parts fin)
  note shape = handlePart_shape [where L = L and e = e and part = part]
  show ?case
  proof (cases "handlePart L e part")
    case (PartFail err)
    with shape show ?thesis by simp
  next
    case (Continue e1)
    with shape "2.IH"(1) [OF Continue] show ?thesis by simp
  next
    case (Nested decoded boundary)
    with shape have nb: "\<not> partBroken L part" "nestedBody L part = Some (decoded, boundary)"
      by simp_all
    show ?thesis
    proof (cases n)
      case 0
      with Nested nb show ?thesis by simp
    next
      case (Suc m)
      let ?inner = "parseParts m L e (fst (MultipartRead L decoded boundary))
                      (snd (MultipartRead L decoded boundary))"
      show ?thesis
      proof (cases ?inner)
        case (Inl err)
        with "2.IH"(2) [OF Nested Suc] Nested Suc nb show ?thesis by simp
      next
        case (Inr e1)
        with "2.IH"(2) [OF Nested Suc] "2.IH"(3) [OF Nested Suc Inr] Nested Suc nb
        show ?thesis by simp
      qed
    qed
  qed
qed

text \<open>Whether \<^verbatim>\<open>ParseEmail\<close> fails depends on the bytes and on the library only.\<close>

lemma ParseEmail_failsN: "isl (ParseEmail L now rawData from to) = parseFailsN L rawData"
proof (cases "mail_ReadMessage L rawData")
  case (Inl err)
  then show ?thesis by (simp add: ParseEmail_def parseFailsN_def)
next
  case (Inr msg)
  let ?ct = "contentTypeOf msg"
  let ?email = "headerEmail L now msg rawData from to"
  show ?thesis
  proof (cases "snd (snd (ParseMediaType L ?ct))")
    case (Some err)
    with Inr show ?thesis
      by (simp add: ParseEmail_def parseFailsN_def contentTypeOf_def [symmetric] Let_def)
  next
    case None
    show ?thesis
    proof (cases "strings_HasPrefix (fst (ParseMediaType L ?ct)) ''multipart/''")
      case True
      let ?b = "lookup (fst (snd (ParseMediaType L ?ct))) ''boundary''"
      let ?pm = "parseMultipart (length (MsgBody msg)) L ?email (MsgBody msg) ?b"
      have pm: "isl ?pm = partsFailN (length (MsgBody msg)) L
                  (fst (MultipartRead L (MsgBody msg) ?b)) (snd (MultipartRead L (MsgBody msg) ?b))"
        by (simp add: parseMultipart_def parseParts_failsN)
      have pe: "ParseEmail L now rawData from to =
                  (if ?b = [] then Inl ''missing boundary in multipart message''
                   else (case ?pm of
                           Inl err \<Rightarrow> Inl (''failed to parse multipart message: '' @ err)
                         | Inr email \<Rightarrow> Inr email))"
        using Inr None True by (simp add: ParseEmail_def contentTypeOf_def [symmetric] Let_def)
      have "isl (ParseEmail L now rawData from to) = (?b = [] \<or> isl ?pm)"
        unfolding pe by (cases ?pm) simp_all
      with Inr None True pm show ?thesis by (simp add: parseFailsN_def Let_def)
    next
      case False
      let ?dc = "decodeContent L (MsgBody msg)
                   (Header_Get (Header msg) ''Content-Transfer-Encoding'')"
      have pe: "ParseEmail L now rawData from to =
                  (case ?dc of
                     Inl err \<Rightarrow> Inl (''failed to decode message body: '' @ err)
                   | Inr decoded \<Rightarrow>
                       (if strings_HasPrefix (fst (ParseMediaType L ?ct)) ''text/html''
                        then Inr (?email\<lparr>HTMLBody := decoded\<rparr>)
                        else Inr (?email\<lparr>Body := decoded\<rparr>)))"
        using Inr None False by (simp add: ParseEmail_def contentTypeOf_def [symmetric] Let_def)
      have "isl (ParseEmail L now rawData from to) = isl ?dc"
        unfolding pe by (cases ?dc) simp_all
      with Inr None False show ?thesis
        by (simp add: parseFailsN_def Let_def decodeContent_fails)
    qed
  qed
qed

text \<open>
  The depth that bounds the descent into nested bodies is never what fails: with a
  reader whose parts are shorter than the body it reads, any larger bound gives the
  same result, and the parts fail at that depth exactly when they fail.
\<close>

lemma b64quanta_length: "b64quanta s = Some bs \<Longrightarrow> length bs \<le> length s"
  apply (induction s arbitrary: bs rule: b64quanta.induct)
  apply (auto split: option.splits if_splits)
  apply (blast intro: le_SucI)
  done

lemma base64_Decode_length: "base64_Decode src = Some bs \<Longrightarrow> length bs \<le> length src"
proof -
  assume "base64_Decode src = Some bs"
  then have "length bs \<le> length (filter (\<lambda>c. c \<noteq> CR \<and> c \<noteq> LF) src)"
    unfolding base64_Decode_def by (rule b64quanta_length)
  also have "\<dots> \<le> length src" by (rule length_filter_le)
  finally show ?thesis .
qed

lemma decodeContent_length:
  "decodeContent L dat encoding = Inr decoded \<Longrightarrow> length decoded \<le> length dat"
  by (auto simp: decodeContent_def Let_def split: if_splits option.splits
      dest: base64_Decode_length)

lemma handlePart_Nested_aux:
  "(case handlePart L e part of
      Nested decoded boundary \<Rightarrow>
        (case PartData part of
           Inl err \<Rightarrow> False
         | Inr partData \<Rightarrow>
             decodeContent L partData (Header_Get (PartHeader part) ''Content-Transfer-Encoding'')
               = Inr decoded)
    | _ \<Rightarrow> True)"
  by (simp add: handlePart_def Let_def split: sum.split)

lemma handlePart_Nested_size:
  assumes "handlePart L e part = Nested decoded boundary"
  shows "length decoded \<le> partSize part"
  using handlePart_Nested_aux [where L = L and e = e and part = part] assms
  by (auto simp: partSize_def split: sum.splits dest: decodeContent_length)


lemma parseParts_fuel:
  "shrinking L \<Longrightarrow> \<forall>part \<in> set parts. partSize part < n \<Longrightarrow> n \<le> m \<Longrightarrow>
   parseParts n L e parts fin = parseParts m L e parts fin"
proof (induction n L e parts fin arbitrary: m rule: parseParts.induct)
  case (1 n L e fin)
  show ?case by simp
next
  case (2 n L e part parts fin)
  from "2.prems" obtain k j where n: "n = Suc k" and m: "m = Suc j" and kj: "k \<le> j"
    by (cases n; cases m) auto
  from "2.prems" have rest: "\<forall>part \<in> set parts. partSize part < n" by simp
  show ?case
  proof (cases "handlePart L e part")
    case (PartFail err)
    then show ?thesis by simp
  next
    case (Continue e1)
    with "2.IH"(1) [OF Continue "2.prems"(1) rest "2.prems"(3)] show ?thesis by simp
  next
    case (Nested decoded boundary)
    let ?ps = "fst (MultipartRead L decoded boundary)"
    let ?fin = "snd (MultipartRead L decoded boundary)"
    from handlePart_Nested_size [OF Nested] "2.prems"(2) n have "length decoded \<le> k" by simp
    moreover from "2.prems"(1) have "\<forall>part \<in> set ?ps. partSize part < length decoded"
      by (simp add: shrinking_def)
    ultimately have small: "\<forall>part \<in> set ?ps. partSize part < k" by auto
    have inner: "parseParts k L e ?ps ?fin = parseParts j L e ?ps ?fin"
      by (rule "2.IH"(2) [OF Nested n "2.prems"(1) small kj])
    show ?thesis
    proof (cases "parseParts k L e ?ps ?fin")
      case (Inl err)
      moreover from Inl inner have "parseParts j L e ?ps ?fin = Inl err" by simp
      ultimately show ?thesis using Nested n m by simp
    next
      case (Inr e1)
      moreover from Inr inner have "parseParts j L e ?ps ?fin = Inr e1" by simp
      moreover note "2.IH"(3) [OF Nested n Inr "2.prems"(1) rest "2.prems"(3)]
      ultimately show ?thesis using Nested n m by simp
    qed
  qed
qed

lemma parseMultipart_fuel:
  assumes "shrinking L"
  shows "parseMultipart (length body + k) L e body boundary =
         parseMultipart (length body) L e body boundary"
proof -
  from assms have "\<forall>part \<in> set (fst (MultipartRead L body boundary)).
      partSize part < length body"
    by (simp add: shrinking_def)
  from parseParts_fuel [OF assms this, of "length body + k"] show ?thesis
    by (simp add: parseMultipart_def)
qed








section \<open>Properties of the SMTP session\<close>

subsection \<open>The null reverse-path\<close>

lemma handleMail_null:
  "helo s \<noteq> [] \<Longrightarrow>
   handleMail srv s ''FROM:<>'' = (True, sendResponse (s\<lparr>mailFrom := [], rcptTo := []\<rparr>) 250 ''OK'')"
proof -
  assume h: "helo s \<noteq> []"
  have "list_all isASCII ''FROM:<>''" by code_simp
  moreover have "map upper_byte ''FROM:<>'' = ''FROM:<>''" by code_simp
  ultimately have up: "strings_ToUpper (lib (processor srv)) ''FROM:<>'' = ''FROM:<>''"
    by (simp add: strings_ToUpper_def)
  have tr: "strings_TrimSpace ''<>'' = ''<>''" by code_simp
  from h up tr show ?thesis
    by (simp add: handleMail_def strings_HasPrefix_def strings_HasSuffix_def)
qed

lemma rcpt_without_sender:
  "mailFrom s = [] \<Longrightarrow>
   handleCommands srv s w (map (\<lambda>a. (''RCPT'', a)) argss) =
     (True, s\<lparr>writer := writer s @ replicate (length argss) (Final 503 ''Need MAIL first'')\<rparr>, w)"
proof (induction argss arbitrary: s)
  case Nil
  then show ?case by simp
next
  case (Cons a argss)
  have step: "handleCommand srv s w ''RCPT'' a = (True, sendResponse s 503 ''Need MAIL first'', w)"
    using Cons.prems by (simp add: handleCommand_def handleRcpt_def pure_def)
  have "mailFrom (sendResponse s 503 ''Need MAIL first'') = []"
    using Cons.prems by (simp add: sendResponse_def)
  from Cons.IH [OF this] show ?case
    by (simp add: step sendResponse_def replicate_app_Cons_same)
qed

text \<open>
  C10. In a session that has sent \<^verbatim>\<open>HELO\<close> or \<^verbatim>\<open>EHLO\<close>, the command
  \<^verbatim>\<open>MAIL FROM:<>\<close> is answered with 250 and stores the empty string as
  \<open>mailFrom\<close>; every \<^verbatim>\<open>RCPT\<close> command that follows it, whatever its arguments, is
  answered with 503 \<^verbatim>\<open>Need MAIL first\<close> and changes nothing else.
\<close>

theorem null_reverse_path_blocks_rcpt:
  assumes "helo s \<noteq> []"
  shows "handleCommands srv s w ((''MAIL'', ''FROM:<>'') # map (\<lambda>a. (''RCPT'', a)) argss) =
     (True,
      s\<lparr>mailFrom := [], rcptTo := [],
        writer := writer s @ Final 250 ''OK'' #
                  replicate (length argss) (Final 503 ''Need MAIL first'')\<rparr>,
      w)"
proof -
  let ?s1 = "sendResponse (s\<lparr>mailFrom := [], rcptTo := []\<rparr>) 250 ''OK''"
  have mail: "handleCommand srv s w ''MAIL'' ''FROM:<>'' = (True, ?s1, w)"
    using assms by (simp add: handleCommand_def pure_def handleMail_null)
  have "mailFrom ?s1 = []" by (simp add: sendResponse_def)
  from rcpt_without_sender [OF this, of srv w argss] show ?thesis
    by (simp add: mail sendResponse_def)
qed

theorem null_reverse_path_blocks_rcpt_witness:
  "helo (session0\<lparr>helo := ''client''\<rparr>) \<noteq> [] \<and>
   handleCommands (server0 []) (session0\<lparr>helo := ''client''\<rparr>) []
     [(''MAIL'', ''FROM:<>''), (''RCPT'', ''TO:<a@b>''), (''RCPT'', ''TO:<c@d>'')] =
   (True,
    session0\<lparr>helo := ''client'',
      writer := [Final 250 ''OK'', Final 503 ''Need MAIL first'', Final 503 ''Need MAIL first'']\<rparr>,
    [])"
proof -
  have h: "helo (session0\<lparr>helo := ''client''\<rparr>) \<noteq> []" by simp
  from null_reverse_path_blocks_rcpt [OF h, of "server0 []" "[]" "[''TO:<a@b>'', ''TO:<c@d>'']"]
  show ?thesis by (simp add: session0_def)
qed

subsection \<open>\<^verbatim>\<open>STARTTLS\<close>\<close>








subsection \<open>\<^verbatim>\<open>DATA\<close>: reading the message\<close>

lemma isLine_split: "isLine l \<Longrightarrow> \<exists>b. l = b @ [LF] \<and> LF \<notin> set b"
  by (metis isLine_def append_butlast_last_id)

lemma ReadBytes_line:
  assumes "isLine l"
  shows "ReadBytes (l @ r) LF = Some (l, r)"
proof -
  from isLine_split [OF assms] obtain b where l: "l = b @ [LF]" and b: "LF \<notin> set b" by blast
  have mem: "LF \<in> set (l @ r)" using l by simp
  have tw: "takeWhile (\<lambda>c. c \<noteq> LF) (b @ LF # r) = b"
    using b by (induction b) auto
  have dw: "dropWhile (\<lambda>c. c \<noteq> LF) (b @ LF # r) = LF # r"
    using b by (induction b) auto
  show ?thesis using mem tw dw l by (simp add: ReadBytes_def)
qed

lemma isLine_dotStuff: "isLine l \<Longrightarrow> isLine (dotStuff l)"
  by (auto simp: isLine_def dotStuff_def LF_def)

lemma unstuff_dotStuff: "l \<noteq> [] \<Longrightarrow> unstuff (dotStuff l) = l"
  by (cases l) (auto simp: unstuff_def dotStuff_def)

lemma dotStuff_not_terminator: "l \<noteq> [] \<Longrightarrow> \<not> isTerminator (dotStuff l)"
  by (cases l) (auto simp: isTerminator_def dotStuff_def CR_def)

lemma isTerminator_dot: "isTerminator (''.'' @ CRLF)"
  by (simp add: isTerminator_def CRLF_def CR_def LF_def)

lemma isLine_dot: "isLine (''.'' @ CRLF)"
  by (simp add: isLine_def CRLF_def LF_def)

lemma readData_transmit:
  assumes "\<forall>l \<in> set ls. isLine l"
  shows "readData (transmit ls @ rest) dat = Some (dat @ concat ls, rest)"
  using assms
proof (induction ls arbitrary: dat)
  case Nil
  have "ReadBytes ((''.'' @ CRLF) @ rest) LF = Some (''.'' @ CRLF, rest)"
    by (rule ReadBytes_line [OF isLine_dot])
  then show ?case
    using isTerminator_dot by (simp add: transmit_def readData.simps [of _ dat])
next
  case (Cons l ls)
  then have l: "isLine l" and ls: "\<forall>l \<in> set ls. isLine l" by simp_all
  from l have ne: "l \<noteq> []" by (simp add: isLine_def)
  have rb: "ReadBytes (dotStuff l @ (transmit ls @ rest)) LF = Some (dotStuff l, transmit ls @ rest)"
    by (rule ReadBytes_line [OF isLine_dotStuff [OF l]])
  have eq: "transmit (l # ls) @ rest = dotStuff l @ (transmit ls @ rest)"
    by (simp add: transmit_def)
  have "readData (transmit (l # ls) @ rest) dat = readData (transmit ls @ rest) (dat @ l)"
    unfolding eq
    using rb dotStuff_not_terminator [OF ne] unstuff_dotStuff [OF ne]
    by (simp add: readData.simps [of "dotStuff l @ (transmit ls @ rest)" dat])
  with Cons.IH [OF ls, of "dat @ l"] show ?case by simp
qed

section \<open>Properties of the routing engine and the dispatcher\<close>

subsection \<open>Which rules match, and what the matching writes\<close>

lemma routeOutcomes_append [simp]: "routeOutcomes (a @ b) = routeOutcomes a @ routeOutcomes b"
  by (simp add: routeOutcomes_def)

lemma routeOutcomes_Nil [simp]: "routeOutcomes [] = []"
  by (simp add: routeOutcomes_def)

lemma routeOutcomes_Cons [simp]: "routeOutcomes (ev # w) = routeOutcome ev @ routeOutcomes w"
  by (simp add: routeOutcomes_def)

lemma patternLog_routeOutcome: "isPatternLog ev \<Longrightarrow> routeOutcome ev = []"
  by (cases ev rule: isPatternLog.cases) simp_all

lemma patternLogs_routeOutcomes: "list_all isPatternLog evs \<Longrightarrow> routeOutcomes evs = []"
  by (induction evs) (auto simp: patternLog_routeOutcome)

lemma subjectMatches_fst:
  "fst (subjectMatches P w email route) =
     patternMatches (lib P) (SubjectPattern (Route_Condition route)) [Subject email]"
  by (simp add: subjectMatches_def patternMatches_def split: option.splits)

lemma senderMatches_fst:
  "fst (senderMatches P w email route) =
     (patternMatches (lib P) (SenderPattern (Route_Condition route)) [From email]
      \<and> patternMatches (lib P) (SubjectPattern (Route_Condition route)) [Subject email])"
  by (simp add: senderMatches_def subjectMatches_fst patternMatches_def split: option.splits)

lemma routeMatches_fst: "fst (routeMatches P w email route) = ruleMatches (lib P) email route"
  by (simp add: routeMatches_def senderMatches_fst ruleMatches_def patternMatches_def
      split: option.splits)

lemma subjectMatches_events:
  "\<exists>evs. snd (subjectMatches P w email route) = w @ evs \<and> list_all isPatternLog evs"
  by (simp add: subjectMatches_def split: option.splits)

lemma senderMatches_events:
  "\<exists>evs. snd (senderMatches P w email route) = w @ evs \<and> list_all isPatternLog evs"
  using subjectMatches_events [of P w email route]
  by (simp add: senderMatches_def split: option.splits)

lemma routeMatches_events:
  "\<exists>evs. snd (routeMatches P w email route) = w @ evs \<and> list_all isPatternLog evs"
  using senderMatches_events [of P w email route]
  by (simp add: routeMatches_def split: option.splits)

lemma findMatchingRoutes_fst:
  "fst (findMatchingRoutes P w email routes) = filter (ruleMatches (lib P) email) routes"
proof (induction routes arbitrary: w)
  case Nil
  show ?case by simp
next
  case (Cons route routes)
  obtain m w1 where rm: "routeMatches P w email route = (m, w1)"
    by (cases "routeMatches P w email route") auto
  from routeMatches_fst [of P w email route] rm have m: "m = ruleMatches (lib P) email route"
    by simp
  obtain ms w2 where fm: "findMatchingRoutes P w1 email routes = (ms, w2)"
    by (cases "findMatchingRoutes P w1 email routes") auto
  with Cons.IH [of w1] have "ms = filter (ruleMatches (lib P) email) routes" by simp
  with rm m fm show ?case by (cases m) simp_all
qed

lemma findMatchingRoutes_events:
  "\<exists>evs. snd (findMatchingRoutes P w email routes) = w @ evs \<and> list_all isPatternLog evs"
proof (induction routes arbitrary: w)
  case Nil
  show ?case by simp
next
  case (Cons route routes)
  obtain m w1 where rm: "routeMatches P w email route = (m, w1)"
    by (cases "routeMatches P w email route") auto
  from routeMatches_events [of P w email route] rm
  obtain evs1 where e1: "w1 = w @ evs1" "list_all isPatternLog evs1" by auto
  from Cons.IH [of w1]
  obtain evs2 where e2: "snd (findMatchingRoutes P w1 email routes) = w1 @ evs2"
      "list_all isPatternLog evs2" by auto
  obtain ms w2 where fm: "findMatchingRoutes P w1 email routes = (ms, w2)"
    by (cases "findMatchingRoutes P w1 email routes") auto
  have "snd (findMatchingRoutes P w email (route # routes)) = w @ (evs1 @ evs2)"
    using rm e1 e2 fm by (cases m) simp_all
  moreover have "list_all isPatternLog (evs1 @ evs2)" using e1 e2 by simp
  ultimately show ?case by blast
qed


lemma quiet_refl [simp]: "quiet w w"
  by (simp add: quiet_def)

lemma quiet_trans: "quiet a b \<Longrightarrow> quiet b c \<Longrightarrow> quiet a c"
  by (auto simp: quiet_def)

lemma quiet_event: "routeOutcome ev = [] \<Longrightarrow> quiet w (w @ [ev])"
  by (simp add: quiet_def)

lemma quiet_routeOutcomes: "quiet w w' \<Longrightarrow> routeOutcomes w' = routeOutcomes w"
  by (auto simp: quiet_def)

lemma store_quiet: "quiet w (snd (store P w c))"
  by (simp add: store_def quiet_event)

lemma findMatchingRoutes_quiet: "quiet w (snd (findMatchingRoutes P w email routes))"
  using findMatchingRoutes_events [of P w email routes]
  by (auto simp: quiet_def patternLogs_routeOutcomes)

lemma getRouteFolder_quiet: "quiet w (snd (getRouteFolder P w email))"
  using findMatchingRoutes_quiet [of w P email "GetEnabledRoutes (config P)"]
  by (auto simp: getRouteFolder_def split: prod.splits list.splits)

lemma SendWebhook_quiet: "quiet w (snd (SendWebhook P w url method headers payload))"
  by (simp add: SendWebhook_def Let_def quiet_event split: sum.splits option.splits)

lemma storeWebhookPayload_quiet: "quiet w (snd (storeWebhookPayload P w email folderPath))"
proof -
  have a: "\<And>w c. quiet w (snd (store P w c))" by (rule store_quiet)
  show ?thesis
    unfolding storeWebhookPayload_def Let_def
    by (auto split: sum.splits prod.splits option.splits if_splits
        intro: quiet_trans dest: sym
        simp: store_def quiet_event quiet_def)
qed


lemma logPayloadFailure_quiet: "quiet w (snd r) \<Longrightarrow> quiet w (logPayloadFailure r)"
  by (cases r) (auto simp: logPayloadFailure_def quiet_def split: option.splits)

lemma storeAttachmentsLocal_quiet: "quiet w (storeAttachmentsLocal P w folderPath atts)"
proof (induction atts arbitrary: w)
  case Nil
  show ?case by simp
next
  case (Cons a atts)
  let ?c = "StoreLocal (folderPath @ ''/'' @ Filename a) (Content a)"
  obtain r w1 where st: "store P w ?c = (r, w1)" by (cases "store P w ?c") auto
  with store_quiet [of w P ?c] have q1: "quiet w w1" by simp
  show ?case
  proof (cases r)
    case None
    with st Cons.IH [of w1] q1 show ?thesis by (auto intro: quiet_trans)
  next
    case (Some err)
    have "quiet w1 (w1 @ [Log (FailedToStoreAttachment (Filename a) err)])"
      by (simp add: quiet_event)
    with q1 have "quiet w (w1 @ [Log (FailedToStoreAttachment (Filename a) err)])"
      by (rule quiet_trans)
    with Some st Cons.IH [of "w1 @ [Log (FailedToStoreAttachment (Filename a) err)]"]
    show ?thesis by (auto intro: quiet_trans)
  qed
qed

lemma storeAttachmentsS3_quiet: "quiet w (storeAttachmentsS3 P w folderPath atts)"
proof (induction atts arbitrary: w)
  case Nil
  show ?case by simp
next
  case (Cons a atts)
  let ?c = "StoreS3WithContentType (folderPath @ ''/'' @ Filename a) (Content a) (ContentType a)"
  obtain r w1 where st: "store P w ?c = (r, w1)" by (cases "store P w ?c") auto
  with store_quiet [of w P ?c] have q1: "quiet w w1" by simp
  show ?case
  proof (cases r)
    case None
    with st Cons.IH [of w1] q1 show ?thesis by (auto intro: quiet_trans)
  next
    case (Some err)
    have "quiet w1 (w1 @ [Log (FailedToStoreAttachment (Filename a) err)])"
      by (simp add: quiet_event)
    with q1 have "quiet w (w1 @ [Log (FailedToStoreAttachment (Filename a) err)])"
      by (rule quiet_trans)
    with Some st Cons.IH [of "w1 @ [Log (FailedToStoreAttachment (Filename a) err)]"]
    show ?thesis by (auto intro: quiet_trans)
  qed
qed

lemma executeLocalStorage_quiet: "quiet w (snd (executeLocalStorage P w email action))"
proof -
  let ?folder = "if lookup (Action_Config action) ''folder'' = [] then ''default''
                 else lookup (Action_Config action) ''folder''"
  let ?fp = "folderPath_of P email ?folder"
  let ?c = "StoreLocal (?fp @ ''/'' @ generateFilename P email) (ToEML email)"
  obtain r w1 where st: "store P w ?c = (r, w1)" by (cases "store P w ?c") auto
  with store_quiet [of w P ?c] have q1: "quiet w w1" by simp
  let ?w2 = "storeAttachmentsLocal P w1 ?fp (Attachments email)"
  have q2: "quiet w ?w2" using q1 storeAttachmentsLocal_quiet by (rule quiet_trans)
  have "quiet w (snd (storeWebhookPayload P ?w2 email ?fp))"
    using q2 storeWebhookPayload_quiet by (rule quiet_trans)
  then have q3: "quiet w (logPayloadFailure (storeWebhookPayload P ?w2 email ?fp))"
    by (rule logPayloadFailure_quiet)
  show ?thesis
    using st q1 q3 by (cases r) (simp_all add: executeLocalStorage_def Let_def)
qed

lemma executeS3Storage_quiet: "quiet w (snd (executeS3Storage P w email action))"
proof -
  let ?folder = "if lookup (Action_Config action) ''folder'' = [] then ''default''
                 else lookup (Action_Config action) ''folder''"
  let ?fp = "folderPath_of P email ?folder"
  let ?c = "StoreS3 (?fp @ ''/'' @ generateFilename P email) (ToEML email)"
  obtain r w1 where st: "store P w ?c = (r, w1)" by (cases "store P w ?c") auto
  with store_quiet [of w P ?c] have q1: "quiet w w1" by simp
  let ?w2 = "storeAttachmentsS3 P w1 ?fp (Attachments email)"
  have q2: "quiet w ?w2" using q1 storeAttachmentsS3_quiet by (rule quiet_trans)
  have "quiet w (snd (storeWebhookPayload P ?w2 email ?fp))"
    using q2 storeWebhookPayload_quiet by (rule quiet_trans)
  then have q3: "quiet w (logPayloadFailure (storeWebhookPayload P ?w2 email ?fp))"
    by (rule logPayloadFailure_quiet)
  show ?thesis
    using st q1 q3 by (cases r) (simp_all add: executeS3Storage_def Let_def)
qed

lemma executeWebhook_quiet: "quiet w (snd (executeWebhook P w email action))"
proof (cases "lookup (Action_Config action) ''url'' = []")
  case True
  then show ?thesis by (simp add: executeWebhook_def)
next
  case False
  obtain folder w1 where g: "getRouteFolder P w email = (folder, w1)"
    by (cases "getRouteFolder P w email") auto
  with getRouteFolder_quiet [of w P email] have q1: "quiet w w1" by simp
  show ?thesis
    using False g quiet_trans [OF q1 SendWebhook_quiet]
    by (simp add: executeWebhook_def Let_def)
qed

lemma executeActions_quiet: "quiet w (snd (executeActions P w email actions))"
proof (induction actions arbitrary: w)
  case Nil
  show ?case by simp
next
  case (Cons a actions)
  note IH = Cons.IH
  show ?case
  proof (cases "Action_Enabled a")
    case False
    with IH [of w] show ?thesis by simp
  next
    case True
    have step: "\<And>r w1. quiet w w1 \<Longrightarrow>
        quiet w (snd (case (r, w1) of
                        (Some err, w') \<Rightarrow> (Some (pre @ err), w')
                      | (None, w') \<Rightarrow> executeActions P w' email actions))" for pre
      using IH by (auto split: option.splits intro: quiet_trans)
    consider (l) "Action_Type a = ''store_local''"
      | (s) "Action_Type a \<noteq> ''store_local''" "Action_Type a = ''store_s3''"
      | (h) "Action_Type a \<noteq> ''store_local''" "Action_Type a \<noteq> ''store_s3''"
            "Action_Type a = ''webhook''"
      | (u) "Action_Type a \<noteq> ''store_local''" "Action_Type a \<noteq> ''store_s3''"
            "Action_Type a \<noteq> ''webhook''"
      by blast
    then show ?thesis
    proof cases
      case l
      obtain r w1 where x: "executeLocalStorage P w email a = (r, w1)"
        by (cases "executeLocalStorage P w email a") auto
      with executeLocalStorage_quiet [of w P email a] have "quiet w w1" by simp
      from step [OF this, of "''local storage action failed: ''" r] True l x
      show ?thesis by simp
    next
      case s
      obtain r w1 where x: "executeS3Storage P w email a = (r, w1)"
        by (cases "executeS3Storage P w email a") auto
      with executeS3Storage_quiet [of w P email a] have "quiet w w1" by simp
      from step [OF this, of "''S3 storage action failed: ''" r] True s x
      show ?thesis by simp
    next
      case h
      obtain r w1 where x: "executeWebhook P w email a = (r, w1)"
        by (cases "executeWebhook P w email a") auto
      with executeWebhook_quiet [of w P email a] have "quiet w w1" by simp
      from step [OF this, of "''webhook action failed: ''" r] True h x
      show ?thesis by simp
    next
      case u
      have "quiet w (w @ [Log (UnknownActionType (Action_Type a))])"
        by (simp add: quiet_event)
      from quiet_trans [OF this IH] True u show ?thesis by simp
    qed
  qed
qed

lemma executeRoute_quiet: "quiet w (snd (executeRoute P w email route))"
  by (simp add: executeRoute_def executeActions_quiet)

lemma executeRoutes_outcomes:
  "\<exists>evs. executeRoutes P w email routes = w @ evs
         \<and> map fst (routeOutcomes evs) = map Route_Name routes"
proof (induction routes arbitrary: w)
  case Nil
  show ?case by simp
next
  case (Cons route routes)
  obtain r w1 where x: "executeRoute P w email route = (r, w1)"
    by (cases "executeRoute P w email route") auto
  with executeRoute_quiet [of w P email route]
  obtain evs1 where e1: "w1 = w @ evs1" "routeOutcomes evs1 = []" by (auto simp: quiet_def)
  let ?l = "case r of Some err \<Rightarrow> Log (FailedToExecuteRoute (Route_Name route) err)
                    | None \<Rightarrow> Log (SuccessfullyExecutedRoute (Route_Name route))"
  from Cons.IH [of "w1 @ [?l]"]
  obtain evs2 where e2: "executeRoutes P (w1 @ [?l]) email routes = (w1 @ [?l]) @ evs2"
      "map fst (routeOutcomes evs2) = map Route_Name routes" by blast
  have "executeRoutes P w email (route # routes) = w @ (evs1 @ [?l] @ evs2)"
    using x e1 e2 by (cases r) simp_all
  moreover have "map fst (routeOutcomes (evs1 @ [?l] @ evs2)) = map Route_Name (route # routes)"
    using e1 e2 by (cases r) simp_all
  ultimately show ?case by blast
qed


lemma ProcessEmail_outcomes:
  assumes "ParseEmail (lib P) (clock P w) rawData from to = Inr email"
  shows "\<exists>evs. ProcessEmail P w from to rawData = (None, w @ evs)
           \<and> map fst (routeOutcomes evs) =
               map Route_Name (filter (ruleMatches (lib P) email) (GetEnabledRoutes (config P)))"
proof -
  let ?w0 = "w @ [Log (ProcessingEmail (Summary email))]"
  let ?routes = "GetEnabledRoutes (config P)"
  obtain ms w1 where fm: "findMatchingRoutes P ?w0 email ?routes = (ms, w1)"
    by (cases "findMatchingRoutes P ?w0 email ?routes") auto
  from findMatchingRoutes_fst [of P ?w0 email ?routes] fm
  have ms: "ms = filter (ruleMatches (lib P) email) ?routes" by simp
  from findMatchingRoutes_quiet [of ?w0 P email ?routes] fm
  obtain evs1 where e1: "w1 = ?w0 @ evs1" "routeOutcomes evs1 = []" by (auto simp: quiet_def)
  show ?thesis
  proof (cases "ms = []")
    case True
    have "ProcessEmail P w from to rawData =
        (None, w @ ([Log (ProcessingEmail (Summary email))] @ evs1 @ [Log (NoMatchingRoutes from to)]))"
      using assms fm True e1 by (simp add: ProcessEmail_def)
    moreover have "map fst (routeOutcomes
        ([Log (ProcessingEmail (Summary email))] @ evs1 @ [Log (NoMatchingRoutes from to)])) =
        map Route_Name ms"
      using True e1 by simp
    ultimately show ?thesis using ms by blast
  next
    case False
    from executeRoutes_outcomes [of P w1 email ms]
    obtain evs2 where e2: "executeRoutes P w1 email ms = w1 @ evs2"
        "map fst (routeOutcomes evs2) = map Route_Name ms" by blast
    have "ProcessEmail P w from to rawData =
        (None, w @ ([Log (ProcessingEmail (Summary email))] @ evs1 @ evs2))"
      using assms fm False e1 e2 by (simp add: ProcessEmail_def)
    moreover have "map fst (routeOutcomes
        ([Log (ProcessingEmail (Summary email))] @ evs1 @ evs2)) = map Route_Name ms"
      using e1 e2 by simp
    ultimately show ?thesis using ms by blast
  qed
qed



subsection \<open>A failing action\<close>

lemma executeActions_append:
  "executeActions P w email (xs @ ys) =
     (case executeActions P w email xs of
        (Some err, w') \<Rightarrow> (Some err, w')
      | (None, w') \<Rightarrow> executeActions P w' email ys)"
proof (induction xs arbitrary: w)
  case Nil
  show ?case by simp
next
  case (Cons a xs)
  show ?case
    by (simp add: Cons.IH split: prod.splits option.splits)
qed

lemma executeLocalStorage_first:
  "\<exists>path r more. snd (executeLocalStorage P w email action) =
      w @ Storage (StoreLocal path (ToEML email)) r # more"
proof -
  let ?folder = "if lookup (Action_Config action) ''folder'' = [] then ''default''
                 else lookup (Action_Config action) ''folder''"
  let ?fp = "folderPath_of P email ?folder"
  let ?c = "StoreLocal (?fp @ ''/'' @ generateFilename P email) (ToEML email)"
  let ?r = "storageBackend P w ?c"
  let ?w1 = "w @ [Storage ?c ?r]"
  have st: "store P w ?c = (?r, ?w1)" by (simp add: store_def)
  let ?w2 = "storeAttachmentsLocal P ?w1 ?fp (Attachments email)"
  have "quiet ?w1 ?w2" by (rule storeAttachmentsLocal_quiet)
  moreover have "quiet ?w2 (snd (storeWebhookPayload P ?w2 email ?fp))"
    by (rule storeWebhookPayload_quiet)
  ultimately have "quiet ?w1 (snd (storeWebhookPayload P ?w2 email ?fp))"
    by (rule quiet_trans)
  then have "quiet ?w1 (logPayloadFailure (storeWebhookPayload P ?w2 email ?fp))"
    by (rule logPayloadFailure_quiet)
  then obtain evs where
    evs: "logPayloadFailure (storeWebhookPayload P ?w2 email ?fp) = ?w1 @ evs"
    by (auto simp: quiet_def)
  show ?thesis
  proof (cases ?r)
    case None
    with st evs have "snd (executeLocalStorage P w email action) = w @ Storage ?c ?r # evs"
      by (simp add: executeLocalStorage_def Let_def)
    then show ?thesis by blast
  next
    case (Some err)
    with st have "snd (executeLocalStorage P w email action) = w @ Storage ?c ?r # []"
      by (simp add: executeLocalStorage_def Let_def)
    then show ?thesis by blast
  qed
qed

text \<open>
  C1, as the code has it. \<^verbatim>\<open>executeRoute\<close> runs the enabled actions of a rule in
  order and returns at the first one that fails: when the actions before it succeed
  and the action fails, the route returns that failure in the world the failing action
  left, so none of the actions after it is executed. The dispatcher writes the failure
  to the log and goes on with the next matched rule, and every matched rule gets its
  outcome line, in order, whatever the rules before it did. An enabled \<^verbatim>\<open>store_local\<close>
  action at the head of the list has stored the \<^verbatim>\<open>.eml\<close> bytes before any later
  action, a webhook for instance, runs or fails.
\<close>

theorem failing_action_ends_its_rule_only:
  "(executeActions P w email before = (None, w1)
      \<and> executeActions P w1 email [action] = (Some err, w2) \<longrightarrow>
      executeRoute P w email (route\<lparr>Route_Actions := before @ action # after\<rparr>) = (Some err, w2))
   \<and> (executeRoute P w email route = (Some err, w') \<longrightarrow>
      executeRoutes P w email (route # routes) =
        executeRoutes P (w' @ [Log (FailedToExecuteRoute (Route_Name route) err)]) email routes)
   \<and> (\<exists>evs. executeRoutes P w email routes = w @ evs
          \<and> map fst (routeOutcomes evs) = map Route_Name routes)
   \<and> (Action_Enabled action \<and> Action_Type action = ''store_local'' \<longrightarrow>
      (\<exists>path r more.
         snd (executeRoute P w email (route\<lparr>Route_Actions := action # after\<rparr>)) =
           w @ Storage (StoreLocal path (ToEML email)) r # more))"
proof (intro conjI impI)
  assume a: "executeActions P w email before = (None, w1)
      \<and> executeActions P w1 email [action] = (Some err, w2)"
  have "executeActions P w email (before @ ([action] @ after)) = (Some err, w2)"
    using a by (simp only: executeActions_append [of P w email before]
        executeActions_append [of P w1 email "[action]"] prod.case option.case)
  then show "executeRoute P w email (route\<lparr>Route_Actions := before @ action # after\<rparr>) = (Some err, w2)"
    by (simp add: executeRoute_def)
next
  assume "executeRoute P w email route = (Some err, w')"
  then show "executeRoutes P w email (route # routes) =
        executeRoutes P (w' @ [Log (FailedToExecuteRoute (Route_Name route) err)]) email routes"
    by simp
next
  show "\<exists>evs. executeRoutes P w email routes = w @ evs
          \<and> map fst (routeOutcomes evs) = map Route_Name routes"
    by (rule executeRoutes_outcomes)
next
  assume a: "Action_Enabled action \<and> Action_Type action = ''store_local''"
  obtain r w1 where x: "executeLocalStorage P w email action = (r, w1)"
    by (cases "executeLocalStorage P w email action") auto
  from executeLocalStorage_first [of P w email action] x
  obtain path res more where w1: "w1 = w @ Storage (StoreLocal path (ToEML email)) res # more"
    by auto
  show "\<exists>path r more.
         snd (executeRoute P w email (route\<lparr>Route_Actions := action # after\<rparr>)) =
           w @ Storage (StoreLocal path (ToEML email)) r # more"
  proof (cases r)
    case (Some e)
    with a x w1 show ?thesis by (simp add: executeRoute_def)
  next
    case None
    from executeActions_quiet [of w1 P email after]
    obtain evs where "snd (executeActions P w1 email after) = w1 @ evs"
      by (auto simp: quiet_def)
    with None a x w1 show ?thesis by (simp add: executeRoute_def)
  qed
qed


text \<open>
  The claim as stated fails for a rule that lists the webhook before the local store:
  with an endpoint that answers 500, the route fails with the HTTP request as its only
  event and nothing is stored.
\<close>

theorem failing_webhook_prevents_store_counterexample:
  "executeRoute (processor500 []) [] email1 (route0 ''r'' ''capture@'' [webhook0, storeLocal0]) =
     (Some ''webhook action failed: webhook returned error status: 500'', [http500])
   \<and> storageCalls [http500] = []"
  by code_simp

theorem failing_action_ends_its_rule_only_witness:
  "executeActions (processor500 []) [] email1 [storeLocal0] =
     (None, snd (executeActions (processor500 []) [] email1 [storeLocal0]))
   \<and> executeActions (processor500 []) (snd (executeActions (processor500 []) [] email1 [storeLocal0]))
       email1 [webhook0] =
     (Some ''webhook action failed: webhook returned error status: 500'',
      snd (executeActions (processor500 []) [] email1 [storeLocal0]) @ [http500])
   \<and> executeRoute (processor500 []) [] email1
       (route0 ''r'' ''capture@'' [storeLocal0, webhook0, storeLocal0]) =
     (Some ''webhook action failed: webhook returned error status: 500'',
      snd (executeActions (processor500 []) [] email1 [storeLocal0]) @ [http500])
   \<and> length (storageCalls (snd (executeActions (processor500 []) [] email1 [storeLocal0]))) = 2
   \<and> executeRoutes (processor500 []) [] email1
       [route0 ''r'' ''capture@'' [webhook0, storeLocal0], route0 ''s'' ''capture@'' [storeLocal0]] =
     executeRoutes (processor500 [])
       ([http500] @ [Log (FailedToExecuteRoute ''r''
            ''webhook action failed: webhook returned error status: 500'')])
       email1 [route0 ''s'' ''capture@'' [storeLocal0]]
   \<and> routeOutcomes (executeRoutes (processor500 []) [] email1
       [route0 ''r'' ''capture@'' [webhook0, storeLocal0], route0 ''s'' ''capture@'' [storeLocal0]]) =
     [(''r'', False), (''s'', True)]
   \<and> Action_Enabled storeLocal0 \<and> Action_Type storeLocal0 = ''store_local''
   \<and> (\<exists>path r more.
         snd (executeRoute (processor500 []) [] email1
                (route0 ''r'' ''capture@'' [storeLocal0, webhook0])) =
           [] @ Storage (StoreLocal path (ToEML email1)) r # more)"
proof -
  let ?P = "processor500 []"
  let ?w1 = "snd (executeActions ?P [] email1 [storeLocal0])"
  let ?err = "''webhook action failed: webhook returned error status: 500''"
  let ?r = "route0 ''r'' ''capture@'' [webhook0, storeLocal0]"
  let ?s = "route0 ''s'' ''capture@'' [storeLocal0]"
  have h1: "executeActions ?P [] email1 [storeLocal0] = (None, ?w1)"
    by code_simp
  have h2: "executeActions ?P ?w1 email1 [webhook0] = (Some ?err, ?w1 @ [http500])"
    by code_simp
  have h3: "executeRoute ?P [] email1 ?r = (Some ?err, [http500])"
    by code_simp
  have h4: "Action_Enabled storeLocal0 \<and> Action_Type storeLocal0 = ''store_local''"
    by (simp add: storeLocal0_def)
  have n: "length (storageCalls ?w1) = 2"
    by code_simp
  have o: "routeOutcomes (executeRoutes ?P [] email1 [?r, ?s]) = [(''r'', False), (''s'', True)]"
    by code_simp
  note t1 = failing_action_ends_its_rule_only
    [where P = ?P and w = "[]" and email = email1 and before = "[storeLocal0]" and ?w1.0 = ?w1
       and action = webhook0 and err = ?err and ?w2.0 = "?w1 @ [http500]"
       and route = "route0 ''r'' ''capture@'' []" and after = "[storeLocal0]"
       and w' = "[http500]" and routes = "[?s]"]
  note t2 = failing_action_ends_its_rule_only
    [where P = ?P and w = "[]" and email = email1 and before = "[storeLocal0]" and ?w1.0 = ?w1
       and action = webhook0 and err = ?err and ?w2.0 = "?w1 @ [http500]"
       and route = ?r and after = "[storeLocal0]"
       and w' = "[http500]" and routes = "[?s]"]
  from t1 h1 h2 have c1: "executeRoute ?P [] email1
       (route0 ''r'' ''capture@'' [storeLocal0, webhook0, storeLocal0]) = (Some ?err, ?w1 @ [http500])"
    by (simp add: route0_def)
  from t2 h3 have c2: "executeRoutes ?P [] email1 [?r, ?s] =
     executeRoutes ?P ([http500] @ [Log (FailedToExecuteRoute ''r'' ?err)]) email1 [?s]"
    by (simp add: route0_def)
  note t3 = failing_action_ends_its_rule_only
    [where P = ?P and w = "[]" and email = email1 and before = "[storeLocal0]" and ?w1.0 = ?w1
       and action = storeLocal0 and err = ?err and ?w2.0 = "?w1 @ [http500]"
       and route = "route0 ''r'' ''capture@'' []" and after = "[webhook0]"
       and w' = "[http500]" and routes = "[?s]"]
  from t3 h4 have c3: "\<exists>path r more.
         snd (executeRoute ?P [] email1 (route0 ''r'' ''capture@'' [storeLocal0, webhook0])) =
           [] @ Storage (StoreLocal path (ToEML email1)) r # more"
    by (simp add: route0_def)
  show ?thesis using h1 h2 c1 n c2 o h4 c3 by simp
qed

subsection \<open>The stored message\<close>

lemma storageCalls_append [simp]: "storageCalls (a @ b) = storageCalls a @ storageCalls b"
  by (simp add: storageCalls_def)

lemma storageCalls_Cons [simp]: "storageCalls (ev # w) = storageCall ev @ storageCalls w"
  by (simp add: storageCalls_def)

lemma emlPath_suffix: "strings_HasSuffix (emlPath P email action) ''.eml''"
  by (simp add: emlPath_def generateFilename_def Let_def strings_HasSuffix_def)

lemma executeLocalStorage_stores:
  "\<exists>r more. snd (executeLocalStorage P w email action) =
      w @ Storage (StoreLocal (emlPath P email action) (ToEML email)) r # more"
proof -
  let ?folder = "if lookup (Action_Config action) ''folder'' = [] then ''default''
                 else lookup (Action_Config action) ''folder''"
  let ?fp = "folderPath_of P email ?folder"
  let ?c = "StoreLocal (emlPath P email action) (ToEML email)"
  let ?r = "storageBackend P w ?c"
  let ?w1 = "w @ [Storage ?c ?r]"
  have st: "store P w (StoreLocal (?fp @ ''/'' @ generateFilename P email) (ToEML email)) = (?r, ?w1)"
    by (simp add: store_def emlPath_def)
  let ?w2 = "storeAttachmentsLocal P ?w1 ?fp (Attachments email)"
  have "quiet ?w1 ?w2" by (rule storeAttachmentsLocal_quiet)
  moreover have "quiet ?w2 (snd (storeWebhookPayload P ?w2 email ?fp))"
    by (rule storeWebhookPayload_quiet)
  ultimately have "quiet ?w1 (snd (storeWebhookPayload P ?w2 email ?fp))"
    by (rule quiet_trans)
  then have "quiet ?w1 (logPayloadFailure (storeWebhookPayload P ?w2 email ?fp))"
    by (rule logPayloadFailure_quiet)
  then obtain evs where
    evs: "logPayloadFailure (storeWebhookPayload P ?w2 email ?fp) = ?w1 @ evs"
    by (auto simp: quiet_def)
  show ?thesis
  proof (cases ?r)
    case None
    with st evs have "snd (executeLocalStorage P w email action) = w @ Storage ?c ?r # evs"
      by (simp add: executeLocalStorage_def Let_def)
    then show ?thesis by blast
  next
    case (Some err)
    with st have "snd (executeLocalStorage P w email action) = w @ Storage ?c ?r # []"
      by (simp add: executeLocalStorage_def Let_def)
    then show ?thesis by blast
  qed
qed

lemma executeS3Storage_stores:
  "\<exists>r more. snd (executeS3Storage P w email action) =
      w @ Storage (StoreS3 (emlPath P email action) (ToEML email)) r # more"
proof -
  let ?folder = "if lookup (Action_Config action) ''folder'' = [] then ''default''
                 else lookup (Action_Config action) ''folder''"
  let ?fp = "folderPath_of P email ?folder"
  let ?c = "StoreS3 (emlPath P email action) (ToEML email)"
  let ?r = "storageBackend P w ?c"
  let ?w1 = "w @ [Storage ?c ?r]"
  have st: "store P w (StoreS3 (?fp @ ''/'' @ generateFilename P email) (ToEML email)) = (?r, ?w1)"
    by (simp add: store_def emlPath_def)
  let ?w2 = "storeAttachmentsS3 P ?w1 ?fp (Attachments email)"
  have "quiet ?w1 ?w2" by (rule storeAttachmentsS3_quiet)
  moreover have "quiet ?w2 (snd (storeWebhookPayload P ?w2 email ?fp))"
    by (rule storeWebhookPayload_quiet)
  ultimately have "quiet ?w1 (snd (storeWebhookPayload P ?w2 email ?fp))"
    by (rule quiet_trans)
  then have "quiet ?w1 (logPayloadFailure (storeWebhookPayload P ?w2 email ?fp))"
    by (rule logPayloadFailure_quiet)
  then obtain evs where
    evs: "logPayloadFailure (storeWebhookPayload P ?w2 email ?fp) = ?w1 @ evs"
    by (auto simp: quiet_def)
  show ?thesis
  proof (cases ?r)
    case None
    with st evs have "snd (executeS3Storage P w email action) = w @ Storage ?c ?r # evs"
      by (simp add: executeS3Storage_def Let_def)
    then show ?thesis by blast
  next
    case (Some err)
    with st have "snd (executeS3Storage P w email action) = w @ Storage ?c ?r # []"
      by (simp add: executeS3Storage_def Let_def)
    then show ?thesis by blast
  qed
qed

text \<open>
  The call with which a storing action stores the \<^verbatim>\<open>.eml\<close> file, and the routes that
  begin with such an action: the call is among the storage calls of the route, and of
  any run of routes that the route is part of.
\<close>

definition emlCall :: "Processor \<Rightarrow> Email \<Rightarrow> Action \<Rightarrow> call" where
  "emlCall P email action =
     (if Action_Type action = ''store_local''
      then StoreLocal (emlPath P email action) (ToEML email)
      else StoreS3 (emlPath P email action) (ToEML email))"

definition storesFirst :: "RouteConfig \<Rightarrow> Action \<Rightarrow> bool" where
  "storesFirst route action =
     (\<exists>actions. Route_Actions route = action # actions \<and> Action_Enabled action
        \<and> (Action_Type action = ''store_local'' \<or> Action_Type action = ''store_s3''))"

lemma executeRoute_stores:
  assumes "storesFirst route action"
  shows "\<exists>evs. snd (executeRoute P w email route) = w @ evs
           \<and> emlCall P email action \<in> set (storageCalls evs)"
proof -
  from assms obtain actions where ra: "Route_Actions route = action # actions"
    and en: "Action_Enabled action"
    and ty: "Action_Type action = ''store_local'' \<or> Action_Type action = ''store_s3''"
    by (auto simp: storesFirst_def)
  let ?step = "if Action_Type action = ''store_local'' then executeLocalStorage P w email action
               else executeS3Storage P w email action"
  obtain res w1 where x: "?step = (res, w1)" by (cases ?step) auto
  have "\<exists>r more. w1 = w @ Storage (emlCall P email action) r # more"
  proof (cases "Action_Type action = ''store_local''")
    case True
    with x executeLocalStorage_stores [of P w email action] show ?thesis
      by (auto simp: emlCall_def)
  next
    case False
    with x executeS3Storage_stores [of P w email action] show ?thesis
      by (auto simp: emlCall_def)
  qed
  then obtain r more where w1: "w1 = w @ Storage (emlCall P email action) r # more" by blast
  show ?thesis
  proof (cases res)
    case (Some err)
    with ra en ty x w1 have "snd (executeRoute P w email route) = w @ Storage (emlCall P email action) r # more"
      by (auto simp: executeRoute_def split: if_splits)
    then show ?thesis by auto
  next
    case None
    from executeActions_quiet [of w1 P email actions]
    obtain evs where evs: "snd (executeActions P w1 email actions) = w1 @ evs"
      by (auto simp: quiet_def)
    with None ra en ty x w1
    have "snd (executeRoute P w email route) = w @ (Storage (emlCall P email action) r # more @ evs)"
      by (auto simp: executeRoute_def split: if_splits)
    then show ?thesis by auto
  qed
qed

lemma executeRoutes_stores:
  assumes "storesFirst route action"
  shows "route \<in> set routes \<Longrightarrow>
         \<exists>evs. executeRoutes P w email routes = w @ evs
           \<and> emlCall P email action \<in> set (storageCalls evs)"
proof (induction routes arbitrary: w)
  case Nil
  then show ?case by simp
next
  case (Cons r routes)
  obtain res w1 where x: "executeRoute P w email r = (res, w1)"
    by (cases "executeRoute P w email r") auto
  let ?l = "case res of Some err \<Rightarrow> Log (FailedToExecuteRoute (Route_Name r) err)
            | None \<Rightarrow> Log (SuccessfullyExecutedRoute (Route_Name r))"
  have step: "executeRoutes P w email (r # routes) = executeRoutes P (w1 @ [?l]) email routes"
    using x by (cases res) simp_all
  from executeRoute_quiet [of w P email r] x obtain evs1 where e1: "w1 = w @ evs1"
    by (auto simp: quiet_def)
  from executeRoutes_outcomes [of P "w1 @ [?l]" email routes]
  obtain evs2 where e2: "executeRoutes P (w1 @ [?l]) email routes = (w1 @ [?l]) @ evs2" by blast
  show ?case
  proof (cases "route = r")
    case True
    from executeRoute_stores [OF assms, of P w email] True x
    obtain evs where "w1 = w @ evs" "emlCall P email action \<in> set (storageCalls evs)" by auto
    with step e2 have "executeRoutes P w email (r # routes) = w @ (evs @ [?l] @ evs2)
        \<and> emlCall P email action \<in> set (storageCalls (evs @ [?l] @ evs2))"
      by simp
    then show ?thesis by blast
  next
    case False
    with Cons.prems have "route \<in> set routes" by simp
    from Cons.IH [OF this, of "w1 @ [?l]"]
    obtain evs where "executeRoutes P (w1 @ [?l]) email routes = (w1 @ [?l]) @ evs"
        "emlCall P email action \<in> set (storageCalls evs)" by blast
    with step e1 have "executeRoutes P w email (r # routes) = w @ (evs1 @ [?l] @ evs)
        \<and> emlCall P email action \<in> set (storageCalls (evs1 @ [?l] @ evs))"
      by simp
    then show ?thesis by blast
  qed
qed

lemma ProcessEmail_stores:
  assumes "ParseEmail (lib P) (clock P w) rawData from to = Inr email"
      and "route \<in> set (Routes (config P))" and "Route_Enabled route"
      and "ruleMatches (lib P) email route" and "storesFirst route action"
  shows "\<exists>evs. ProcessEmail P w from to rawData = (None, w @ evs)
           \<and> emlCall P email action \<in> set (storageCalls evs)"
proof -
  let ?w0 = "w @ [Log (ProcessingEmail (Summary email))]"
  let ?routes = "GetEnabledRoutes (config P)"
  obtain ms w1 where fm: "findMatchingRoutes P ?w0 email ?routes = (ms, w1)"
    by (cases "findMatchingRoutes P ?w0 email ?routes") auto
  from findMatchingRoutes_fst [of P ?w0 email ?routes] fm
  have ms: "ms = filter (ruleMatches (lib P) email) ?routes" by simp
  with assms(2-4) have mem: "route \<in> set ms" by (simp add: GetEnabledRoutes_def)
  then have ne: "ms \<noteq> []" by auto
  from findMatchingRoutes_quiet [of ?w0 P email ?routes] fm
  obtain evs1 where e1: "w1 = ?w0 @ evs1" by (auto simp: quiet_def)
  from executeRoutes_stores [OF assms(5) mem, of P w1 email]
  obtain evs where e: "executeRoutes P w1 email ms = w1 @ evs"
      "emlCall P email action \<in> set (storageCalls evs)" by blast
  have "ProcessEmail P w from to rawData =
      (None, w @ ([Log (ProcessingEmail (Summary email))] @ evs1 @ evs))"
    using assms(1) fm ne e(1) e1 by (simp add: ProcessEmail_def)
  moreover have "emlCall P email action \<in>
      set (storageCalls ([Log (ProcessingEmail (Summary email))] @ evs1 @ evs))"
    using e(2) by simp
  ultimately show ?thesis by blast
qed

lemma ParseEmail_again:
  assumes "ParseEmail L now rawData from to = Inr e"
  shows "\<exists>e'. ParseEmail L now' rawData from' to' = Inr e' \<and> Raw e' = rawData"
proof -
  from assms ParseEmail_failsN [of L now rawData "from" to]
  have "\<not> parseFailsN L rawData" by simp
  with ParseEmail_failsN [of L now' rawData from' to']
  obtain e' where e': "ParseEmail L now' rawData from' to' = Inr e'"
    by (cases "ParseEmail L now' rawData from' to'") auto
  with ParseEmail_Raw [OF e'] show ?thesis by blast
qed

text \<open>
  C5. Let a message body be a sequence of lines, each ending with its line feed, and let
  the sender transmit it as \<^verbatim>\<open>DATA\<close> requires: a dot put in front of every line that
  begins with one, then the terminator line. The read loop of \<^verbatim>\<open>handleData\<close> returns
  exactly the bytes of the body: each doubled dot is one dot again and nothing else is
  changed. \<^verbatim>\<open>handleData\<close> has these bytes parsed, and answers 554 when they do not
  parse; when they parse, the email keeps them as \<^verbatim>\<open>Raw\<close>, which is what \<^verbatim>\<open>ToEML\<close>
  returns, and the routes run on this email. A storing action begins by handing
  exactly these bytes to the storage backend, under a path that ends with \<^verbatim>\<open>.eml\<close>; so
  for every enabled rule that matches the email and begins with an enabled storing
  action, the storage calls made while \<^verbatim>\<open>DATA\<close> is handled include the \<^verbatim>\<open>.eml\<close> file
  with the bytes of the body. Parsing the stored bytes again, at any time and under any
  envelope, succeeds and gives an email with the same bytes. The server removes the
  first dot of every line that begins with one, so a body with a line made of one dot
  comes back unchanged as well.
\<close>

theorem data_round_trip:
  assumes "\<forall>l \<in> set ls. isLine l"
  shows "readData (transmit ls @ rest) [] = Some (concat ls, rest)
    \<and> (rcptTo s \<noteq> [] \<and> reader s = transmit ls @ rest \<longrightarrow>
         handleData srv s w =
           (case ParseEmail (lib (processor srv)) (clock (processor srv) w) (concat ls)
                   (mailFrom s) (rcptTo s) of
              Inl err \<Rightarrow>
                (True,
                 s\<lparr>reader := rest, data := concat ls,
                   writer := writer s @ [Final 354 ''Start mail input; end with <CRLF>.<CRLF>'',
                                         Final 554 ''Transaction failed'']\<rparr>,
                 w @ [Log (ErrorProcessingEmail (''failed to parse email: '' @ err))])
            | Inr e \<Rightarrow>
                (True,
                 s\<lparr>reader := rest, data := [], mailFrom := [], rcptTo := [],
                   writer := writer s @ [Final 354 ''Start mail input; end with <CRLF>.<CRLF>'',
                                         Final 250 ''OK'']\<rparr>,
                 (case findMatchingRoutes (processor srv)
                         (w @ [Log (ProcessingEmail (Summary e))]) e
                         (GetEnabledRoutes (config (processor srv))) of
                    (matchedRoutes, w') \<Rightarrow>
                      if length matchedRoutes = 0
                      then w' @ [Log (NoMatchingRoutes (mailFrom s) (rcptTo s))]
                      else executeRoutes (processor srv) w' e matchedRoutes))))
    \<and> (ParseEmail L now (concat ls) sender rcpts = Inr e \<longrightarrow>
         Raw e = concat ls \<and> ToEML e = concat ls
         \<and> strings_HasSuffix (emlPath P e action) ''.eml''
         \<and> (\<exists>r more. snd (executeLocalStorage P w1 e action) =
                w1 @ Storage (StoreLocal (emlPath P e action) (concat ls)) r # more)
         \<and> (\<exists>r more. snd (executeS3Storage P w1 e action) =
                w1 @ Storage (StoreS3 (emlPath P e action) (concat ls)) r # more)
         \<and> (\<exists>e'. ParseEmail L now' (ToEML e) sender' rcpts' = Inr e' \<and> ToEML e' = concat ls))
    \<and> (rcptTo s \<noteq> [] \<and> reader s = transmit ls @ rest
         \<and> ParseEmail (lib (processor srv)) (clock (processor srv) w) (concat ls)
               (mailFrom s) (rcptTo s) = Inr email
         \<and> route \<in> set (Routes (config (processor srv))) \<and> Route_Enabled route
         \<and> ruleMatches (lib (processor srv)) email route
         \<and> Route_Actions route = act # acts \<and> Action_Enabled act \<longrightarrow>
         (Action_Type act = ''store_local'' \<longrightarrow>
            (\<exists>evs. snd (snd (handleData srv s w)) = w @ evs
               \<and> StoreLocal (emlPath (processor srv) email act) (concat ls)
                     \<in> set (storageCalls evs)))
         \<and> (Action_Type act = ''store_s3'' \<longrightarrow>
            (\<exists>evs. snd (snd (handleData srv s w)) = w @ evs
               \<and> StoreS3 (emlPath (processor srv) email act) (concat ls)
                     \<in> set (storageCalls evs))))"
proof (intro conjI impI)
  show rd: "readData (transmit ls @ rest) [] = Some (concat ls, rest)"
    using readData_transmit [OF assms, of rest "[]"] by simp
  {
    assume a: "rcptTo s \<noteq> [] \<and> reader s = transmit ls @ rest"
    then show "handleData srv s w =
           (case ParseEmail (lib (processor srv)) (clock (processor srv) w) (concat ls)
                   (mailFrom s) (rcptTo s) of
              Inl err \<Rightarrow>
                (True,
                 s\<lparr>reader := rest, data := concat ls,
                   writer := writer s @ [Final 354 ''Start mail input; end with <CRLF>.<CRLF>'',
                                         Final 554 ''Transaction failed'']\<rparr>,
                 w @ [Log (ErrorProcessingEmail (''failed to parse email: '' @ err))])
            | Inr e \<Rightarrow>
                (True,
                 s\<lparr>reader := rest, data := [], mailFrom := [], rcptTo := [],
                   writer := writer s @ [Final 354 ''Start mail input; end with <CRLF>.<CRLF>'',
                                         Final 250 ''OK'']\<rparr>,
                 (case findMatchingRoutes (processor srv)
                         (w @ [Log (ProcessingEmail (Summary e))]) e
                         (GetEnabledRoutes (config (processor srv))) of
                    (matchedRoutes, w') \<Rightarrow>
                      if length matchedRoutes = 0
                      then w' @ [Log (NoMatchingRoutes (mailFrom s) (rcptTo s))]
                      else executeRoutes (processor srv) w' e matchedRoutes)))"
      using rd
      by (simp add: handleData_def ProcessEmail_def sendResponse_def
          split: prod.splits option.splits sum.splits)
  }
  {
    assume p: "ParseEmail L now (concat ls) sender rcpts = Inr e"
    from ParseEmail_Raw [OF p] show raw: "Raw e = concat ls" .
    then show eml: "ToEML e = concat ls" by (simp add: ToEML_def)
    show "strings_HasSuffix (emlPath P e action) ''.eml''" by (rule emlPath_suffix)
    from executeLocalStorage_stores [of P w1 e action] eml
    show "\<exists>r more. snd (executeLocalStorage P w1 e action) =
                w1 @ Storage (StoreLocal (emlPath P e action) (concat ls)) r # more"
      by simp
    from executeS3Storage_stores [of P w1 e action] eml
    show "\<exists>r more. snd (executeS3Storage P w1 e action) =
                w1 @ Storage (StoreS3 (emlPath P e action) (concat ls)) r # more"
      by simp
    from ParseEmail_again [OF p, of now' sender' rcpts'] eml
    show "\<exists>e'. ParseEmail L now' (ToEML e) sender' rcpts' = Inr e' \<and> ToEML e' = concat ls"
      by (simp add: ToEML_def)
  }
  {
    assume a: "rcptTo s \<noteq> [] \<and> reader s = transmit ls @ rest
         \<and> ParseEmail (lib (processor srv)) (clock (processor srv) w) (concat ls)
               (mailFrom s) (rcptTo s) = Inr email
         \<and> route \<in> set (Routes (config (processor srv))) \<and> Route_Enabled route
         \<and> ruleMatches (lib (processor srv)) email route
         \<and> Route_Actions route = act # acts \<and> Action_Enabled act"
    then have p: "ParseEmail (lib (processor srv)) (clock (processor srv) w) (concat ls)
               (mailFrom s) (rcptTo s) = Inr email" by simp
    from ParseEmail_Raw [OF p] have eml: "ToEML email = concat ls" by (simp add: ToEML_def)
    have stored: "\<exists>evs. snd (snd (handleData srv s w)) = w @ evs
               \<and> emlCall (processor srv) email act \<in> set (storageCalls evs)"
      if ty: "Action_Type act = ''store_local'' \<or> Action_Type act = ''store_s3''"
    proof -
      from a ty have sf: "storesFirst route act" by (auto simp: storesFirst_def)
      from a have r: "route \<in> set (Routes (config (processor srv)))" "Route_Enabled route"
          "ruleMatches (lib (processor srv)) email route" by simp_all
      from ProcessEmail_stores [OF p r sf]
      obtain evs where pe: "ProcessEmail (processor srv) w (mailFrom s) (rcptTo s) (concat ls) =
            (None, w @ evs)"
          and mem: "emlCall (processor srv) email act \<in> set (storageCalls evs)" by blast
      from a rd pe have "snd (snd (handleData srv s w)) = w @ evs"
        by (simp add: handleData_def sendResponse_def)
      with mem show ?thesis by blast
    qed
    {
      assume ty: "Action_Type act = ''store_local''"
      with stored eml
      show "\<exists>evs. snd (snd (handleData srv s w)) = w @ evs
               \<and> StoreLocal (emlPath (processor srv) email act) (concat ls)
                     \<in> set (storageCalls evs)"
        by (simp add: emlCall_def)
    }
    {
      assume ty: "Action_Type act = ''store_s3''"
      with stored eml
      show "\<exists>evs. snd (snd (handleData srv s w)) = w @ evs
               \<and> StoreS3 (emlPath (processor srv) email act) (concat ls)
                     \<in> set (storageCalls evs)"
        by (simp add: emlCall_def)
    }
  }
qed

theorem data_round_trip_witness:
  "list_all isLine body1
   \<and> transmit body1 =
       ''Subject: hi'' @ CRLF @ CRLF @ ''..hidden'' @ CRLF @ ''..'' @ CRLF @ ''end'' @ CRLF
         @ ''.'' @ CRLF
   \<and> readData (transmit body1 @ ''QUIT'' @ CRLF) [] = Some (concat body1, ''QUIT'' @ CRLF)
   \<and> rcptTo session2 = [''c@d''] \<and> reader session2 = transmit body1
   \<and> ParseEmail golib0 0 (concat body1) ''a@b'' [''c@d''] = Inr (email1\<lparr>To := [''c@d'']\<rparr>)
   \<and> ToEML (email1\<lparr>To := [''c@d'']\<rparr>) = concat body1
   \<and> emlPath (processor0 [route0 ''r'' ''c@d'' [storeLocal0]]) (email1\<lparr>To := [''c@d'']\<rparr>)
         storeLocal0 =
       ''capture/2006/01/20060102_150405.000000/20060102_150405_no-id.eml''
   \<and> StoreLocal ''capture/2006/01/20060102_150405.000000/20060102_150405_no-id.eml''
         (concat body1)
       \<in> set (storageCalls
                (snd (snd (handleData (server0 [route0 ''r'' ''c@d'' [storeLocal0]]) session2 []))))
   \<and> storageCalls (snd (snd (handleData (server0 [route0 ''r'' ''c@d'' [storeLocal0]]) session2 []))) =
       [StoreLocal ''capture/2006/01/20060102_150405.000000/20060102_150405_no-id.eml''
          (concat body1),
        StoreLocal ''capture/2006/01/20060102_150405.000000/20060102_150405_no-id.json'' ''{}'']
   \<and> ParseEmail golib0 99 (concat body1) ''x@y'' [] =
       Inr (email1\<lparr>From := ''x@y'', To := [], Date := 99\<rparr>)
   \<and> ToEML (email1\<lparr>From := ''x@y'', To := [], Date := 99\<rparr>) = concat body1"
proof -
  let ?rs = "[route0 ''r'' ''c@d'' [storeLocal0]]"
  let ?srv = "server0 ?rs"
  let ?e = "email1\<lparr>To := [''c@d'']\<rparr>"
  let ?path = "''capture/2006/01/20060102_150405.000000/20060102_150405_no-id.eml''"
  have h: "\<forall>l \<in> set body1. isLine l"
    by (simp add: body1_def isLine_def CRLF_def LF_def)
  have t: "transmit body1 =
       ''Subject: hi'' @ CRLF @ CRLF @ ''..hidden'' @ CRLF @ ''..'' @ CRLF @ ''end'' @ CRLF
         @ ''.'' @ CRLF"
    by (simp add: transmit_def body1_def dotStuff_def CRLF_def)
  have s2: "rcptTo session2 = [''c@d'']" "reader session2 = transmit body1 @ []"
      "mailFrom session2 = ''a@b''"
    by (simp_all add: session2_def session1_def session0_def)
  have pr: "processor ?srv = processor0 ?rs" "lib (processor0 ?rs) = golib0"
      "clock (processor0 ?rs) [] = 0"
    by (simp_all add: server0_def processor0_def)
  have p: "ParseEmail golib0 0 (concat body1) ''a@b'' [''c@d''] = Inr ?e"
    by code_simp
  have path: "emlPath (processor0 ?rs) ?e storeLocal0 = ?path" by code_simp
  have r: "route0 ''r'' ''c@d'' [storeLocal0] \<in> set (Routes (config (processor0 ?rs)))"
      "Route_Enabled (route0 ''r'' ''c@d'' [storeLocal0])"
      "Route_Actions (route0 ''r'' ''c@d'' [storeLocal0]) = storeLocal0 # []"
      "Action_Enabled storeLocal0" "Action_Type storeLocal0 = ''store_local''"
    by (simp_all add: processor0_def config0_def route0_def storeLocal0_def)
  have m: "ruleMatches golib0 ?e (route0 ''r'' ''c@d'' [storeLocal0])" by code_simp
  have calls: "storageCalls (snd (snd (handleData ?srv session2 []))) =
       [StoreLocal ?path (concat body1),
        StoreLocal ''capture/2006/01/20060102_150405.000000/20060102_150405_no-id.json'' ''{}'']"
    by code_simp
  have again: "ParseEmail golib0 99 (concat body1) ''x@y'' [] =
       Inr (email1\<lparr>From := ''x@y'', To := [], Date := 99\<rparr>)"
    by code_simp
  note rt = data_round_trip [OF h, where rest = "[]" and s = session2 and srv = ?srv and w = "[]"
      and L = golib0 and now = 0 and sender = "''a@b''" and rcpts = "[''c@d'']" and e = ?e
      and email = ?e and route = "route0 ''r'' ''c@d'' [storeLocal0]" and act = storeLocal0
      and acts = "[]" and P = "processor0 ?rs" and action = storeLocal0 and ?w1.0 = "[]"
      and now' = 99 and sender' = "''x@y''" and rcpts' = "[]"]
  note stores = rt [THEN conjunct2, THEN conjunct2, THEN conjunct2]
  note keeps = rt [THEN conjunct2, THEN conjunct2, THEN conjunct1]
  from stores s2 pr p r m path
  have mem: "StoreLocal ?path (concat body1) \<in> set (storageCalls (snd (snd (handleData ?srv session2 []))))"
    by simp
  from keeps p have eml: "ToEML ?e = concat body1" by simp
  from readData_transmit [OF h, of "''QUIT'' @ CRLF" "[]"]
  have rd: "readData (transmit body1 @ ''QUIT'' @ CRLF) [] = Some (concat body1, ''QUIT'' @ CRLF)"
    by simp
  have eml2: "ToEML (email1\<lparr>From := ''x@y'', To := [], Date := 99\<rparr>) = concat body1"
    by (simp add: ToEML_def email1_def)
  have h': "list_all isLine body1" using h by (simp add: list_all_iff)
  show ?thesis using h' t rd s2 p eml path mem calls again eml2 by simp
qed

subsection \<open>Webhook delivery\<close>

lemma pauses_simps [simp]:
  "pauses [] = []" "pauses (ev # w) = pause ev @ pauses w" "pauses (a @ b) = pauses a @ pauses b"
  by (simp_all add: pauses_def)

lemma httpRequests_simps [simp]:
  "httpRequests [] = []" "httpRequests (ev # w) = httpRequest ev @ httpRequests w"
  "httpRequests (a @ b) = httpRequests a @ httpRequests b"
  by (simp_all add: httpRequests_def)

lemma patternLogs_silent:
  "list_all isPatternLog evs \<Longrightarrow> pauses evs = [] \<and> httpRequests evs = []"
proof (induction evs)
  case Nil
  show ?case by simp
next
  case (Cons ev evs)
  then have "isPatternLog ev" by simp
  then have "pause ev = [] \<and> httpRequest ev = []"
    by (cases ev rule: isPatternLog.cases) simp_all
  with Cons show ?case by simp
qed

lemma getRouteFolder_silent:
  "pauses (snd (getRouteFolder P w email)) = pauses w
   \<and> httpRequests (snd (getRouteFolder P w email)) = httpRequests w"
proof -
  from findMatchingRoutes_events [of P w email "GetEnabledRoutes (config P)"]
  obtain evs where e: "snd (findMatchingRoutes P w email (GetEnabledRoutes (config P))) = w @ evs"
      "list_all isPatternLog evs" by blast
  have "snd (getRouteFolder P w email) = w @ evs"
    using e(1) by (auto simp: getRouteFolder_def split: prod.splits list.splits)
  with patternLogs_silent [OF e(2)] show ?thesis by simp
qed

lemma SendWebhook_once:
  "pauses (snd (SendWebhook P w url method headers payload)) = pauses w
   \<and> length (httpRequests (snd (SendWebhook P w url method headers payload)))
       \<le> length (httpRequests w) + 1"
  by (simp add: SendWebhook_def Let_def split: sum.splits option.splits)

lemma executeWebhook_once:
  "pauses (snd (executeWebhook P w email action)) = pauses w
   \<and> length (httpRequests (snd (executeWebhook P w email action)))
       \<le> length (httpRequests w) + 1"
proof (cases "lookup (Action_Config action) ''url'' = []")
  case True
  then show ?thesis by (simp add: executeWebhook_def)
next
  case False
  obtain folder w1 where g: "getRouteFolder P w email = (folder, w1)"
    by (cases "getRouteFolder P w email") auto
  with getRouteFolder_silent [of P w email]
  have s: "pauses w1 = pauses w" "httpRequests w1 = httpRequests w" by simp_all
  show ?thesis
    using False g s SendWebhook_once [of P w1]
    by (simp add: executeWebhook_def Let_def)
qed

lemma upto_from: "(i::int) \<le> j \<Longrightarrow> [i..j] = i # [i + 1..j]"
  by (rule upto_rec1)

lemma retryLoop_bounded:
  assumes "0 \<le> attempt"
      and "retryLoop P url verb hs payload maxRetries attempt lastErr w = (r, w')"
  shows "\<exists>k. attempt - 1 \<le> k \<and> k \<le> max (attempt - 1) maxRetries
           \<and> pauses w' = pauses w @ map (\<lambda>i. nat (i * i)) [max 1 attempt..k]
           \<and> length (httpRequests w') \<le> length (httpRequests w) + nat (k + 1 - attempt)
           \<and> (r \<noteq> None \<longrightarrow> k = max (attempt - 1) maxRetries)"
  using assms
proof (induction P url verb hs payload maxRetries attempt lastErr w
       rule: retryLoop.induct)
  case (1 P url verb hs payload maxRetries attempt lastErr w)
  show ?case
  proof (cases "attempt \<le> maxRetries")
    case False
    with "1.prems"(2) have "w' = w" "r \<noteq> None" by auto
    with False show ?thesis
      by (intro exI [of _ "attempt - 1"]) auto
  next
    case True
    let ?w0 = "if attempt > 0 then w @ [Sleep (nat (attempt * attempt))] else w"
    obtain r1 w1 where sw: "SendWebhook P ?w0 url verb hs payload = (r1, w1)"
      by (cases "SendWebhook P ?w0 url verb hs payload") auto
    from SendWebhook_once [of P ?w0 url verb hs payload] sw
    have p1: "pauses w1 = pauses ?w0"
      and h1: "length (httpRequests w1) \<le> length (httpRequests ?w0) + 1" by simp_all
    have p0: "pauses ?w0 = pauses w @ map (\<lambda>i. nat (i * i)) [max 1 attempt..attempt]"
      using "1.prems"(1) by (cases "attempt = 0") simp_all
    have h0: "httpRequests ?w0 = httpRequests w" by simp
    show ?thesis
    proof (cases r1)
      case None
      with "1.prems"(2) True sw have res: "r = None" "w' = w1" by auto
      show ?thesis
        using res p1 p0 h1 h0 True "1.prems"(1)
        by (intro exI [of _ attempt]) auto
    next
      case (Some err)
      with "1.prems"(2) True sw
      have rec: "retryLoop P url verb hs payload maxRetries (attempt + 1) (Some err) w1
                 = (r, w')" by auto
      have "0 \<le> attempt + 1" using "1.prems"(1) by simp
      from "1.IH" [OF True sw [symmetric] _ this rec] Some
      obtain k where k: "attempt \<le> k" "k \<le> max attempt maxRetries"
          "pauses w' = pauses w1 @ map (\<lambda>i. nat (i * i)) [max 1 (attempt + 1)..k]"
          "length (httpRequests w') \<le> length (httpRequests w1) + nat (k - attempt)"
          "r \<noteq> None \<longrightarrow> k = max attempt maxRetries"
        by auto
      have m: "max 1 (attempt + 1) = attempt + 1" using "1.prems"(1) by simp
      have join: "map (\<lambda>i. nat (i * i)) [max 1 attempt..attempt]
                    @ map (\<lambda>i. nat (i * i)) [attempt + 1..k]
                  = map (\<lambda>i. nat (i * i)) [max 1 attempt..k]"
      proof (cases "attempt = 0")
        case True
        then show ?thesis by simp
      next
        case False
        with "1.prems"(1) have "1 \<le> attempt" by simp
        then have "max 1 attempt = attempt" by simp
        moreover have "[attempt..k] = attempt # [attempt + 1..k]"
          using k(1) by (rule upto_from)
        ultimately show ?thesis by simp
      qed
      show ?thesis
        using k p1 p0 h1 h0 m join True
        by (intro exI [of _ k]) auto
    qed
  qed
qed


text \<open>
  C7, as the code has it. \<^verbatim>\<open>executeWebhook\<close> calls \<^verbatim>\<open>SendWebhook\<close> once: it sends at
  most one HTTP request and never pauses, and its failure is returned by
  \<^verbatim>\<open>executeRoute\<close> at once, ahead of the later actions of the rule. The retry loop is
  \<^verbatim>\<open>SendWebhookWithRetry\<close>, which the dispatcher does not call: it stops after an
  attempt \<open>k \<le> maxRetries\<close>, having sent at most \<open>k + 1\<close> requests and paused
  \<open>1, 4, 9, \<dots>, k\<^sup>2\<close> seconds before the attempts after the first (the square of
  the attempt number, not a power of two), and it reports failure only when
  \<open>k = maxRetries\<close>, that is after all \<open>maxRetries + 1\<close> attempts.
\<close>

theorem webhook_delivery_attempts:
  "pauses (snd (executeWebhook P w email action)) = pauses w
   \<and> length (httpRequests (snd (executeWebhook P w email action))) \<le> length (httpRequests w) + 1
   \<and> (Action_Enabled action \<and> Action_Type action = ''webhook''
        \<and> executeWebhook P w email action = (Some err, w1) \<longrightarrow>
        executeRoute P w email (route\<lparr>Route_Actions := action # after\<rparr>) =
          (Some (''webhook action failed: '' @ err), w1))
   \<and> (SendWebhookWithRetry P w url verb hs payload maxRetries = (r, w') \<longrightarrow>
        (\<exists>k. - 1 \<le> k \<and> k \<le> max (- 1) maxRetries
           \<and> pauses w' = pauses w @ map (\<lambda>i. nat (i * i)) [1..k]
           \<and> length (httpRequests w') \<le> length (httpRequests w) + nat (k + 1)
           \<and> (r \<noteq> None \<longrightarrow> k = max (- 1) maxRetries)))"
proof (intro conjI impI)
  show "pauses (snd (executeWebhook P w email action)) = pauses w"
    using executeWebhook_once [of P w email action] by simp
  show "length (httpRequests (snd (executeWebhook P w email action))) \<le> length (httpRequests w) + 1"
    using executeWebhook_once [of P w email action] by simp
next
  assume "Action_Enabled action \<and> Action_Type action = ''webhook''
        \<and> executeWebhook P w email action = (Some err, w1)"
  then show "executeRoute P w email (route\<lparr>Route_Actions := action # after\<rparr>) =
          (Some (''webhook action failed: '' @ err), w1)"
    by (simp add: executeRoute_def)
next
  assume a: "SendWebhookWithRetry P w url verb hs payload maxRetries = (r, w')"
  then have "retryLoop P url verb hs payload maxRetries 0 None w = (r, w')"
    by (simp add: SendWebhookWithRetry_def)
  from retryLoop_bounded [OF _ this]
  show "\<exists>k. - 1 \<le> k \<and> k \<le> max (- 1) maxRetries
           \<and> pauses w' = pauses w @ map (\<lambda>i. nat (i * i)) [1..k]
           \<and> length (httpRequests w') \<le> length (httpRequests w) + nat (k + 1)
           \<and> (r \<noteq> None \<longrightarrow> k = max (- 1) maxRetries)"
    by simp
qed

text \<open>
  The claim as stated fails for an endpoint that answers 500 to the first request and
  200 to any later one: the webhook action reports the failure after one request,
  where the retry loop would have delivered on its second attempt.
\<close>

theorem webhook_not_retried_counterexample:
  "executeWebhook (processorFlaky []) [] email1 webhook0 =
     (Some ''webhook returned error status: 500'', [http500])
   \<and> SendWebhookWithRetry (processorFlaky []) [] ''http://localhost:8080/webhook'' ''POST'' []
       (makePayload (processorFlaky []) email1 ''f'') 3 =
     (None, [http500, Sleep 1, http200])"
  by code_simp

theorem webhook_delivery_attempts_witness:
  "Action_Enabled webhook0 \<and> Action_Type webhook0 = ''webhook''
   \<and> executeWebhook (processor500 []) [] email1 webhook0 =
       (Some ''webhook returned error status: 500'', [http500])
   \<and> executeRoute (processor500 []) [] email1 (route0 ''r'' ''capture@'' [webhook0, storeLocal0]) =
       (Some ''webhook action failed: webhook returned error status: 500'', [http500])
   \<and> SendWebhookWithRetry (processor500 []) [] ''http://localhost:8080/webhook'' ''POST'' []
       (makePayload (processor500 []) email1 ''f'') 3 =
     (Some ''webhook failed after 4 attempts: webhook returned error status: 500'',
      [http500, Sleep 1, http500, Sleep 4, http500, Sleep 9, http500])
   \<and> (\<exists>k. - 1 \<le> k \<and> k \<le> max (- 1) (3::int)
         \<and> pauses [http500, Sleep 1, http500, Sleep 4, http500, Sleep 9, http500] =
             pauses [] @ map (\<lambda>i. nat (i * i)) [1..k]
         \<and> k = max (- 1) 3)"
proof -
  let ?P = "processor500 []"
  let ?w' = "[http500, Sleep 1, http500, Sleep 4, http500, Sleep 9, http500]"
  let ?err = "''webhook failed after 4 attempts: webhook returned error status: 500''"
  have h0: "Action_Enabled webhook0 \<and> Action_Type webhook0 = ''webhook''"
    by (simp add: webhook0_def)
  have h1: "executeWebhook ?P [] email1 webhook0 =
      (Some ''webhook returned error status: 500'', [http500])"
    by code_simp
  have h2: "SendWebhookWithRetry ?P [] ''http://localhost:8080/webhook'' ''POST'' []
       (makePayload ?P email1 ''f'') 3 = (Some ?err, ?w')"
    by code_simp
  note t = webhook_delivery_attempts
    [where P = ?P and w = "[]" and email = email1 and action = webhook0
       and err = "''webhook returned error status: 500''" and ?w1.0 = "[http500]"
       and route = "route0 ''r'' ''capture@'' []" and after = "[storeLocal0]"
       and url = "''http://localhost:8080/webhook''" and verb = "''POST''" and hs = "[]"
       and payload = "makePayload ?P email1 ''f''" and maxRetries = 3 and r = "Some ?err"
       and w' = ?w']
  from t h0 h1 have c1:
    "executeRoute ?P [] email1 (route0 ''r'' ''capture@'' [webhook0, storeLocal0]) =
       (Some ''webhook action failed: webhook returned error status: 500'', [http500])"
    by (simp add: route0_def)
  from t h2 have c2: "\<exists>k. - 1 \<le> k \<and> k \<le> max (- 1) (3::int)
         \<and> pauses ?w' = pauses [] @ map (\<lambda>i. nat (i * i)) [1..k]
         \<and> k = max (- 1) 3"
    by auto
  show ?thesis using h0 h1 c1 h2 c2 by simp
qed

subsection \<open>\<^verbatim>\<open>DATA\<close>: the reply\<close>

text \<open>
  C2, as the code has it. When \<^verbatim>\<open>DATA\<close> is accepted and the terminator is read: if the
  message does not parse, the session answers 554 and the handler returns true, so the
  connection stays open for further commands; if it parses, the session answers 250
  and \<open>mailFrom\<close> and \<open>rcptTo\<close> are cleared, whatever the routes did. A route that
  fails is written to the log and changes neither the reply nor what the handler
  returns: \<^verbatim>\<open>ProcessEmail\<close> returns an error for a parse failure only.
\<close>

theorem data_reply_codes:
  assumes "rcptTo s \<noteq> []" and "readData (reader s) [] = Some (dat, rest)"
  shows "(ParseEmail (lib (processor srv)) (clock (processor srv) w) dat (mailFrom s) (rcptTo s) = Inl err \<longrightarrow>
            (\<exists>s' w'. handleData srv s w = (True, s', w')
               \<and> writer s' = writer s @ [start354, Final 554 ''Transaction failed'']))
     \<and> (ParseEmail (lib (processor srv)) (clock (processor srv) w) dat (mailFrom s) (rcptTo s) = Inr email \<longrightarrow>
            (\<exists>s' evs. handleData srv s w = (True, s', w @ evs)
               \<and> writer s' = writer s @ [start354, Final 250 ''OK'']
               \<and> mailFrom s' = [] \<and> rcptTo s' = []
               \<and> map fst (routeOutcomes evs) =
                   map Route_Name
                     (filter (ruleMatches (lib (processor srv)) email)
                        (filter Route_Enabled (Routes (config (processor srv)))))))"
proof (intro conjI impI)
  assume p: "ParseEmail (lib (processor srv)) (clock (processor srv) w) dat (mailFrom s) (rcptTo s) = Inl err"
  then have "ProcessEmail (processor srv) w (mailFrom s) (rcptTo s) dat =
      (Some (''failed to parse email: '' @ err), w)"
    by (simp add: ProcessEmail_def)
  with assms show "\<exists>s' w'. handleData srv s w = (True, s', w')
               \<and> writer s' = writer s @ [start354, Final 554 ''Transaction failed'']"
    by (simp add: handleData_def sendResponse_def start354_def)
next
  assume p: "ParseEmail (lib (processor srv)) (clock (processor srv) w) dat (mailFrom s) (rcptTo s) = Inr email"
  from ProcessEmail_outcomes [OF p]
  obtain evs where e: "ProcessEmail (processor srv) w (mailFrom s) (rcptTo s) dat = (None, w @ evs)"
      "map fst (routeOutcomes evs) =
         map Route_Name (filter (ruleMatches (lib (processor srv)) email)
           (GetEnabledRoutes (config (processor srv))))" by blast
  let ?s' = "(sendResponse ((sendResponse s 354 ''Start mail input; end with <CRLF>.<CRLF>'')
               \<lparr>reader := rest, data := dat\<rparr>) 250 ''OK'')\<lparr>mailFrom := [], rcptTo := [], data := []\<rparr>"
  have "handleData srv s w = (True, ?s', w @ evs)"
    using assms e(1) by (simp add: handleData_def sendResponse_def)
  moreover have "writer ?s' = writer s @ [start354, Final 250 ''OK'']"
    by (simp add: sendResponse_def start354_def)
  moreover have "mailFrom ?s' = [] \<and> rcptTo ?s' = []" by simp
  ultimately show "\<exists>s' evs. handleData srv s w = (True, s', w @ evs)
               \<and> writer s' = writer s @ [start354, Final 250 ''OK'']
               \<and> mailFrom s' = [] \<and> rcptTo s' = []
               \<and> map fst (routeOutcomes evs) =
                   map Route_Name
                     (filter (ruleMatches (lib (processor srv)) email)
                        (filter Route_Enabled (Routes (config (processor srv)))))"
    using e(2) by (auto simp: GetEnabledRoutes_def)
qed

text \<open>
  The claim as stated fails when the dispatch step fails: with one matching rule whose
  webhook endpoint answers 500, the route fails and the session answers 250.
\<close>

theorem failed_dispatch_replies_250_counterexample:
  "writer (fst (snd (handleData (server500 [route0 ''r'' ''c@d'' [webhook0]]) session2 []))) =
     [start354, Final 250 ''OK'']
   \<and> routeOutcomes (snd (snd (handleData (server500 [route0 ''r'' ''c@d'' [webhook0]]) session2 []))) =
     [(''r'', False)]"
  by code_simp

theorem data_reply_codes_witness:
  "rcptTo session3 \<noteq> []
   \<and> readData (reader session3) [] = Some (''no header here'' @ CRLF @ CRLF, [])
   \<and> ParseEmail (lib (processor (server500 [route0 ''r'' ''c@d'' [webhook0]])))
         (clock (processor (server500 [route0 ''r'' ''c@d'' [webhook0]])) [])
         (''no header here'' @ CRLF @ CRLF) (mailFrom session3) (rcptTo session3) =
       Inl ''failed to parse email: malformed MIME header line''
   \<and> (\<exists>s' w'. handleData (server500 [route0 ''r'' ''c@d'' [webhook0]]) session3 [] = (True, s', w')
          \<and> writer s' = writer session3 @ [start354, Final 554 ''Transaction failed''])
   \<and> rcptTo session2 \<noteq> []
   \<and> readData (reader session2) [] = Some (concat body1, [])
   \<and> ParseEmail (lib (processor (server500 [route0 ''r'' ''c@d'' [webhook0]])))
         (clock (processor (server500 [route0 ''r'' ''c@d'' [webhook0]])) [])
         (concat body1) (mailFrom session2) (rcptTo session2) =
       Inr (email1\<lparr>To := [''c@d'']\<rparr>)
   \<and> (\<exists>s' evs. handleData (server500 [route0 ''r'' ''c@d'' [webhook0]]) session2 [] =
                     (True, s', [] @ evs)
          \<and> writer s' = writer session2 @ [start354, Final 250 ''OK'']
          \<and> mailFrom s' = [] \<and> rcptTo s' = []
          \<and> map fst (routeOutcomes evs) = [''r''])"
proof -
  let ?srv = "server500 [route0 ''r'' ''c@d'' [webhook0]]"
  have a1: "rcptTo session3 \<noteq> []" by (simp add: session3_def session1_def)
  have a2: "readData (reader session3) [] = Some (''no header here'' @ CRLF @ CRLF, [])"
    by code_simp
  have a3: "ParseEmail (lib (processor ?srv)) (clock (processor ?srv) [])
      (''no header here'' @ CRLF @ CRLF)
      (mailFrom session3) (rcptTo session3) = Inl ''failed to parse email: malformed MIME header line''"
    by code_simp
  have b1: "rcptTo session2 \<noteq> []" by (simp add: session2_def session1_def)
  have b2: "readData (reader session2) [] = Some (concat body1, [])"
    by code_simp
  have b3: "ParseEmail (lib (processor ?srv)) (clock (processor ?srv) []) (concat body1)
      (mailFrom session2) (rcptTo session2) =
      Inr (email1\<lparr>To := [''c@d'']\<rparr>)"
    by code_simp
  have m: "map Route_Name (filter (ruleMatches (lib (processor ?srv)) (email1\<lparr>To := [''c@d'']\<rparr>))
      (filter Route_Enabled (Routes (config (processor ?srv))))) = [''r'']"
    by code_simp
  note ta = data_reply_codes [OF a1 a2, where srv = ?srv and w = "[]" and email = email1
      and err = "''failed to parse email: malformed MIME header line''"]
  note tb = data_reply_codes [OF b1 b2, where srv = ?srv and w = "[]" and err = "[]"
      and email = "email1\<lparr>To := [''c@d'']\<rparr>"]
  from ta a3 have ca: "\<exists>s' w'. handleData ?srv session3 [] = (True, s', w')
          \<and> writer s' = writer session3 @ [start354, Final 554 ''Transaction failed'']"
    by blast
  from tb b3 m have cb: "\<exists>s' evs. handleData ?srv session2 [] = (True, s', [] @ evs)
          \<and> writer s' = writer session2 @ [start354, Final 250 ''OK'']
          \<and> mailFrom s' = [] \<and> rcptTo s' = []
          \<and> map fst (routeOutcomes evs) = [''r'']"
    by auto
  show ?thesis using a1 a2 a3 ca b1 b2 b3 cb by blast
qed

end
